theory Spec2Isabelle
  imports Main "HOL-Library.Sublist" "HOL-Library.AList"
begin

section \<open>Relation store: data model\<close>

text \<open>
  Embedding of \<^verbatim>\<open>relation-service/src/models/relations.js\<close> (class \<^verbatim>\<open>RelationsModel\<close>) and of
  \<^verbatim>\<open>lib/logRotation.js\<close> (class \<^verbatim>\<open>LogRotationManager\<close>).

  Times are JavaScript \<^verbatim>\<open>Date\<close> values, represented by their millisecond count. The
  relational store and the file system are outside the repository: the SQL text of each
  statement is modelled on a table held as a list of rows (in storage order), and what the
  environment decides (whether a statement or a file operation throws, what the clock reads)
  is an explicit argument of every operation.
\<close>

type_synonym time = int

datatype error = Error string

text \<open>
  The \<^verbatim>\<open>metadata\<close> bag. The code reads two of its properties, \<^verbatim>\<open>firstSeen\<close> and
  \<^verbatim>\<open>timestamp\<close> (dates when present, so truthy when present); everything else is opaque.
\<close>

record metadata =
  firstSeen :: "time option"
  timestamp :: "time option"
  attributes :: "(string \<times> string) list"

definition emptyMetadata :: metadata where
  "emptyMetadata = \<lparr>firstSeen = None, timestamp = None, attributes = []\<rparr>"

text \<open>A row of the table \<^verbatim>\<open>relations\<close>, with the column names of the SQL.\<close>

record relation =
  source_type :: string
  source_value :: string
  target_type :: string
  target_value :: string
  metadata :: metadata
  first_seen :: time
  last_seen :: time
  strength :: int
  connection_count :: int

type_synonym relation_key = "string \<times> string \<times> string \<times> string"

definition key_of :: "relation \<Rightarrow> relation_key" where
  "key_of r = (source_type r, source_value r, target_type r, target_value r)"

definition find_relation :: "relation_key \<Rightarrow> relation list \<Rightarrow> relation option" where
  "find_relation k tbl = find (\<lambda>r. key_of r = k) tbl"

text \<open>The shape \<^verbatim>\<open>formatRelations\<close> returns: one group per source value.\<close>

record related =
  rel_target :: string
  rel_type :: string
  rel_strength :: int
  rel_connectionCount :: int
  rel_firstSeen :: time
  rel_lastSeen :: time
  rel_metadata :: metadata

record relation_group =
  grp_source :: string
  grp_type :: string
  grp_related :: "related list"

text \<open>
  \<^verbatim>\<open>relationsCache\<close> is a JavaScript \<^verbatim>\<open>Map\<close> from key to \<^verbatim>\<open>{data, timestamp}\<close>: an
  association list in insertion order.
\<close>

record cache_item =
  item_data :: "relation_group list"
  item_timestamp :: time

type_synonym cache = "(string \<times> cache_item) list"

record world =
  relations :: "relation list"
  relationsCache :: cache

definition RELATIONS_CACHE_TTL :: int where
  "RELATIONS_CACHE_TTL = 30000"

section \<open>Cache management\<close>

text \<open>
  \<^verbatim>\<open>_getCachedData(key)\<close> at clock reading \<open>now\<close>; \<^verbatim>\<open>null\<close> is \<open>None\<close>.
\<close>

definition getCachedData :: "time \<Rightarrow> string \<Rightarrow> cache \<Rightarrow> relation_group list option" where
  "getCachedData now key c =
     (case map_of c key of
        Some cachedItem \<Rightarrow>
          if now - item_timestamp cachedItem < RELATIONS_CACHE_TTL
          then Some (item_data cachedItem) else None
      | None \<Rightarrow> None)"

definition cacheData :: "time \<Rightarrow> string \<Rightarrow> relation_group list \<Rightarrow> cache \<Rightarrow> cache" where
  "cacheData now key d c = AList.update key \<lparr>item_data = d, item_timestamp = now\<rparr> c"

text \<open>\<^verbatim>\<open>_invalidateCache\<close>: delete every key that \<^verbatim>\<open>startsWith(relationType)\<close>.\<close>

definition invalidateCache :: "string \<Rightarrow> cache \<Rightarrow> cache" where
  "invalidateCache relationType c = filter (\<lambda>(key, item). \<not> prefix relationType key) c"

definition clearAllCaches :: "cache \<Rightarrow> cache" where
  "clearAllCaches c = []"

section \<open>The storage statements\<close>

text \<open>
  \<^verbatim>\<open>INSERT ... ON CONFLICT (source_type, source_value, target_type, target_value) DO UPDATE\<close>:
  the row with the key of the proposed row \<open>excluded\<close> is replaced by \<open>upd existing excluded\<close>,
  and a row with a new key is appended. The second component is what \<^verbatim>\<open>RETURNING *\<close> gives.
\<close>

fun insert_on_conflict ::
  "(relation \<Rightarrow> relation \<Rightarrow> relation) \<Rightarrow> relation \<Rightarrow> relation list \<Rightarrow> relation list \<times> relation list" where
  "insert_on_conflict upd excluded [] = ([excluded], [excluded])"
| "insert_on_conflict upd excluded (r # rs) =
     (if key_of r = key_of excluded then (upd r excluded # rs, [upd r excluded])
      else (case insert_on_conflict upd excluded rs of (rs', returned) \<Rightarrow> (r # rs', returned)))"

text \<open>The \<^verbatim>\<open>DO UPDATE SET\<close> clause of \<^verbatim>\<open>upsertRelation\<close> and \<^verbatim>\<open>batchUpsertRelations\<close>.\<close>

definition upsert_set :: "relation \<Rightarrow> relation \<Rightarrow> relation" where
  "upsert_set existing excluded = existing
     \<lparr>last_seen := (if last_seen excluded > last_seen existing
                    then last_seen excluded else last_seen existing),
      metadata := metadata excluded,
      strength := strength existing + 1,
      connection_count := connection_count existing + 1\<rparr>"

text \<open>
  A statement sent to the store either throws (the environment's \<open>err\<close>) and changes nothing,
  or runs on the table.
\<close>

definition query :: "error option \<Rightarrow> (relation list \<Rightarrow> 'a) \<Rightarrow> relation list \<Rightarrow> error + 'a" where
  "query err stmt tbl = (case err of Some e \<Rightarrow> Inl e | None \<Rightarrow> Inr (stmt tbl))"

section \<open>upsertRelation\<close>

text \<open>
  What the environment decides during one upsert: whether \<^verbatim>\<open>db.query\<close> throws, and the
  two readings \<^verbatim>\<open>new Date()\<close> of the parameter array (each taken only when the metadata
  property is absent).
\<close>

record upsert_env =
  queryError :: "error option"
  dateFirst :: time
  dateLast :: time

text \<open>The \<^verbatim>\<open>VALUES ($1, $2, $3, $4, $5, $6, $7, 1, 1)\<close> row.\<close>

definition upsert_values ::
  "upsert_env \<Rightarrow> string \<Rightarrow> string \<Rightarrow> string \<Rightarrow> string \<Rightarrow> metadata \<Rightarrow> relation" where
  "upsert_values env sourceType sourceValue targetType targetValue md =
     \<lparr>source_type = sourceType, source_value = sourceValue,
      target_type = targetType, target_value = targetValue,
      metadata = md,
      first_seen = (case firstSeen md of Some t \<Rightarrow> t | None \<Rightarrow> dateFirst env),
      last_seen = (case timestamp md of Some t \<Rightarrow> t | None \<Rightarrow> dateLast env),
      strength = 1, connection_count = 1\<rparr>"

text \<open>\<^verbatim>\<open>result.rows[0]\<close>, which is \<^verbatim>\<open>undefined\<close> on an empty array.\<close>

definition first_row :: "'a list \<Rightarrow> 'a option" where
  "first_row rows = (case rows of [] \<Rightarrow> None | r # _ \<Rightarrow> Some r)"

definition upsertRelation ::
  "upsert_env \<Rightarrow> string \<Rightarrow> string \<Rightarrow> string \<Rightarrow> string \<Rightarrow> metadata \<Rightarrow> world
     \<Rightarrow> (error + relation option) \<times> world" where
  "upsertRelation env sourceType sourceValue targetType targetValue md w =
     (let w1 = w\<lparr>relationsCache := invalidateCache sourceType (relationsCache w)\<rparr>;
          w2 = w1\<lparr>relationsCache := invalidateCache targetType (relationsCache w1)\<rparr>
      in case query (queryError env)
                (insert_on_conflict upsert_set
                   (upsert_values env sourceType sourceValue targetType targetValue md))
                (relations w2) of
           Inl e \<Rightarrow> (Inl e, w2)
         | Inr (tbl, rows) \<Rightarrow> (Inr (first_row rows), w2\<lparr>relations := tbl\<rparr>))"

text \<open>A caller that upserts the same composite key once per element of \<open>calls\<close>.\<close>

fun upsertRepeatedly ::
  "string \<Rightarrow> string \<Rightarrow> string \<Rightarrow> string \<Rightarrow> (upsert_env \<times> metadata) list \<Rightarrow> world \<Rightarrow> world" where
  "upsertRepeatedly st sv tt tv [] w = w"
| "upsertRepeatedly st sv tt tv ((env, md) # calls) w =
     upsertRepeatedly st sv tt tv calls (snd (upsertRelation env st sv tt tv md w))"

text \<open>The observation time a call supplies: \<^verbatim>\<open>metadata.timestamp || new Date()\<close>.\<close>

definition observed :: "upsert_env \<times> metadata \<Rightarrow> time" where
  "observed c = (case timestamp (snd c) of Some t \<Rightarrow> t | None \<Rightarrow> dateLast (fst c))"

section \<open>batchUpsertRelations\<close>

text \<open>An element of the \<^verbatim>\<open>relations\<close> array, as the loop destructures it.\<close>

record relation_input =
  sourceType :: string
  sourceValue :: string
  targetType :: string
  targetValue :: string
  inputMetadata :: metadata

text \<open>The composite key an element of the array addresses.\<close>

definition input_key :: "relation_input \<Rightarrow> relation_key" where
  "input_key relation =
     (sourceType relation, sourceValue relation, targetType relation, targetValue relation)"

text \<open>
  A caller that makes one \<^verbatim>\<open>upsertRelation\<close> call per element, in order, each with its own
  environment and whatever the call before returned: what the calls return, and the world
  they leave.
\<close>

fun upsertEach ::
  "(upsert_env \<times> relation_input) list \<Rightarrow> world \<Rightarrow> (error + relation option) list \<times> world" where
  "upsertEach [] w = ([], w)"
| "upsertEach ((env, relation) # rest) w =
     (case upsertRelation env (sourceType relation) (sourceValue relation)
             (targetType relation) (targetValue relation) (inputMetadata relation) w of
        (result, w1) \<Rightarrow>
          (case upsertEach rest w1 of (results, w2) \<Rightarrow> (result # results, w2)))"

text \<open>\<^verbatim>\<open>typesToInvalidate.add(t)\<close> on a JavaScript \<^verbatim>\<open>Set\<close> (insertion order, no duplicates).\<close>

definition set_add :: "'a \<Rightarrow> 'a list \<Rightarrow> 'a list" where
  "set_add x xs = (if x \<in> set xs then xs else xs @ [x])"

text \<open>
  The \<^verbatim>\<open>for (const relation of relations)\<close> loop inside the transaction. \<open>env i\<close> is what
  the environment decides during iteration \<open>i\<close>; \<open>tbl\<close> is the table as the open transaction
  sees it. A statement that throws leaves the loop (\<open>Inl\<close>).
\<close>

fun batch_loop ::
  "(nat \<Rightarrow> upsert_env) \<Rightarrow> nat \<Rightarrow> relation_input list \<Rightarrow> string list \<Rightarrow> relation list
     \<Rightarrow> relation list \<Rightarrow> error + (string list \<times> relation list \<times> relation list)" where
  "batch_loop env i [] typesToInvalidate results tbl = Inr (typesToInvalidate, results, tbl)"
| "batch_loop env i (relation # rest) typesToInvalidate results tbl =
     (let types' = set_add (targetType relation) (set_add (sourceType relation) typesToInvalidate)
      in case query (queryError (env i))
                (insert_on_conflict upsert_set
                   (upsert_values (env i) (sourceType relation) (sourceValue relation)
                      (targetType relation) (targetValue relation) (inputMetadata relation)))
                tbl of
           Inl e \<Rightarrow> Inl e
         | Inr (tbl', rows) \<Rightarrow>
             batch_loop env (Suc i) rest types'
               (case rows of [] \<Rightarrow> results | r # _ \<Rightarrow> results @ [r]) tbl')"

text \<open>
  \<open>None\<close> is a \<^verbatim>\<open>null\<close> or \<^verbatim>\<open>undefined\<close> argument. \<^verbatim>\<open>BEGIN\<close> gives the transaction the
  committed table to work on, \<^verbatim>\<open>COMMIT\<close> makes its table the committed one, \<^verbatim>\<open>ROLLBACK\<close>
  drops it. The \<^verbatim>\<open>throw\<close> of the inner handler skips the cache invalidation.
\<close>

definition batchUpsertRelations ::
  "error option \<Rightarrow> (nat \<Rightarrow> upsert_env) \<Rightarrow> relation_input list option \<Rightarrow> world
     \<Rightarrow> (error + relation list) \<times> world" where
  "batchUpsertRelations connectError env relations_arg w =
     (case relations_arg of
        None \<Rightarrow> (Inr [], w)
      | Some rels \<Rightarrow>
          if length rels = 0 then (Inr [], w)
          else (case connectError of
                  Some e \<Rightarrow> (Inl e, w)
                | None \<Rightarrow>
                    (case batch_loop env 0 rels [] [] (relations w) of
                       Inl e \<Rightarrow> (Inl e, w)
                     | Inr (typesToInvalidate, results, tbl) \<Rightarrow>
                         (Inr results,
                          w\<lparr>relations := tbl,
                            relationsCache := fold invalidateCache typesToInvalidate (relationsCache w)\<rparr>))))"

section \<open>getRelations\<close>

text \<open>A JavaScript integer number in a template literal: its decimal digits.\<close>

definition digit_char :: "nat \<Rightarrow> char" where
  "digit_char d = ''0123456789'' ! d"

function string_of_nat :: "nat \<Rightarrow> string" where
  "string_of_nat n =
     (if n < 10 then [digit_char n] else string_of_nat (n div 10) @ [digit_char (n mod 10)])"
  by pat_completeness auto
termination
  by (relation "measure id") auto

declare string_of_nat.simps [simp del]

definition string_of_int :: "int \<Rightarrow> string" where
  "string_of_int i = (if i < 0 then CHR ''-'' # string_of_nat (nat (- i)) else string_of_nat (nat i))"

definition cacheKey :: "string \<Rightarrow> int \<Rightarrow> string" where
  "cacheKey type limit = type @ ''_'' @ string_of_int limit"

text \<open>
  The \<^verbatim>\<open>ranked_relations\<close> query. \<^verbatim>\<open>ORDER BY last_seen DESC\<close> is a stable sort of the rows
  in storage order (SQL leaves the order of ties open); \<^verbatim>\<open>ROW_NUMBER()\<close> counts, in that
  order, the rows of the same partition.
\<close>

definition partition_value :: "string \<Rightarrow> relation \<Rightarrow> string" where
  "partition_value type r = (if source_type r = type then source_value r else target_value r)"

definition order_by_last_seen_desc :: "relation list \<Rightarrow> relation list" where
  "order_by_last_seen_desc rows = sort_key (\<lambda>r. - last_seen r) rows"

fun row_num_at_most :: "string \<Rightarrow> int \<Rightarrow> string list \<Rightarrow> relation list \<Rightarrow> relation list" where
  "row_num_at_most type limit seen [] = []"
| "row_num_at_most type limit seen (r # rs) =
     (let p = partition_value type r; row_num = int (count_list seen p) + 1
      in (if row_num \<le> limit then [r] else []) @ row_num_at_most type limit (p # seen) rs)"

definition select_ranked :: "string \<Rightarrow> int \<Rightarrow> relation list \<Rightarrow> relation list" where
  "select_ranked type limit tbl =
     order_by_last_seen_desc
       (row_num_at_most type limit []
          (order_by_last_seen_desc
             (filter (\<lambda>r. source_type r = type \<or> target_type r = type) tbl)))"

text \<open>\<^verbatim>\<open>formatRelations\<close>: \<open>relationMap\<close> is a \<^verbatim>\<open>Map\<close> keyed by the source value.\<close>

definition related_of :: "relation \<Rightarrow> related" where
  "related_of row =
     \<lparr>rel_target = target_value row, rel_type = target_type row,
      rel_strength = strength row, rel_connectionCount = connection_count row,
      rel_firstSeen = first_seen row, rel_lastSeen = last_seen row,
      rel_metadata = metadata row\<rparr>"

fun formatRelations_loop ::
  "(string \<times> relation_group) list \<Rightarrow> relation list \<Rightarrow> (string \<times> relation_group) list" where
  "formatRelations_loop relationMap [] = relationMap"
| "formatRelations_loop relationMap (row # rows) =
     (let source = source_value row;
          relationMap1 =
            (if map_of relationMap source = None
             then relationMap @ [(source, \<lparr>grp_source = source, grp_type = source_type row, grp_related = []\<rparr>)]
             else relationMap)
      in formatRelations_loop
           (AList.map_entry source (\<lambda>g. g\<lparr>grp_related := grp_related g @ [related_of row]\<rparr>) relationMap1)
           rows)"

definition formatRelations :: "relation list \<Rightarrow> relation_group list" where
  "formatRelations rows = map snd (formatRelations_loop [] rows)"

text \<open>
  The environment of one \<^verbatim>\<open>getRelations\<close>: \<^verbatim>\<open>Date.now()\<close> as \<^verbatim>\<open>_getCachedData\<close> reads it,
  whether \<^verbatim>\<open>db.query\<close> throws, and \<^verbatim>\<open>Date.now()\<close> as \<^verbatim>\<open>_cacheData\<close> reads it. The cached
  data is an array, so \<^verbatim>\<open>if (cachedData)\<close> holds exactly when it is not \<^verbatim>\<open>null\<close>.
\<close>

record get_env =
  dateGet :: time
  getQueryError :: "error option"
  datePut :: time

definition getRelations ::
  "get_env \<Rightarrow> string \<Rightarrow> int \<Rightarrow> world \<Rightarrow> (error + relation_group list) \<times> world" where
  "getRelations env type limit w =
     (let key = cacheKey type limit
      in case getCachedData (dateGet env) key (relationsCache w) of
           Some cachedData \<Rightarrow> (Inr cachedData, w)
         | None \<Rightarrow>
             (case query (getQueryError env) (select_ranked type limit) (relations w) of
                Inl e \<Rightarrow> (Inl e, w)
              | Inr rows \<Rightarrow>
                  (let formattedRelations = formatRelations rows
                   in (Inr formattedRelations,
                       w\<lparr>relationsCache :=
                           cacheData (datePut env) key formattedRelations (relationsCache w)\<rparr>))))"

section \<open>updateFieldValue\<close>

text \<open>
  \<^verbatim>\<open>oldValue\<close> and \<^verbatim>\<open>newValue\<close> are strings or absent (\<^verbatim>\<open>null\<close>, \<^verbatim>\<open>undefined\<close>: \<open>None\<close>);
  \<^verbatim>\<open>!v\<close> holds for an absent value and for the empty string.
\<close>

definition falsy :: "string option \<Rightarrow> bool" where
  "falsy v = (case v of None \<Rightarrow> True | Some s \<Rightarrow> s = [])"

definition text_of :: "string option \<Rightarrow> string" where
  "text_of v = (case v of None \<Rightarrow> [] | Some s \<Rightarrow> s)"

definition select_source :: "string \<Rightarrow> string \<Rightarrow> relation list \<Rightarrow> relation list" where
  "select_source fieldType v tbl = filter (\<lambda>r. source_type r = fieldType \<and> source_value r = v) tbl"

definition select_target :: "string \<Rightarrow> string \<Rightarrow> relation list \<Rightarrow> relation list" where
  "select_target fieldType v tbl = filter (\<lambda>r. target_type r = fieldType \<and> target_value r = v) tbl"

definition delete_source :: "string \<Rightarrow> string \<Rightarrow> relation list \<Rightarrow> relation list" where
  "delete_source fieldType v tbl =
     filter (\<lambda>r. \<not> (source_type r = fieldType \<and> source_value r = v)) tbl"

definition delete_target :: "string \<Rightarrow> string \<Rightarrow> relation list \<Rightarrow> relation list" where
  "delete_target fieldType v tbl =
     filter (\<lambda>r. \<not> (target_type r = fieldType \<and> target_value r = v)) tbl"

text \<open>The \<^verbatim>\<open>DO UPDATE SET\<close> clause of the two re-insert statements.\<close>

definition rename_set :: "relation \<Rightarrow> relation \<Rightarrow> relation" where
  "rename_set existing excluded = existing
     \<lparr>last_seen := last_seen excluded,
      strength := max (strength existing) (strength excluded),
      connection_count := connection_count existing + 1,
      metadata := metadata excluded\<rparr>"

text \<open>
  One re-insert statement: whether it throws, and the \<^verbatim>\<open>new Date()\<close> of its parameter array.
\<close>

record insert_env =
  insertError :: "error option"
  insertDate :: time

definition renamed_source :: "string \<Rightarrow> time \<Rightarrow> relation \<Rightarrow> relation" where
  "renamed_source newValue now relation =
     \<lparr>source_type = source_type relation, source_value = newValue,
      target_type = target_type relation, target_value = target_value relation,
      metadata = metadata relation, first_seen = first_seen relation, last_seen = now,
      strength = strength relation, connection_count = connection_count relation\<rparr>"

definition renamed_target :: "string \<Rightarrow> time \<Rightarrow> relation \<Rightarrow> relation" where
  "renamed_target newValue now relation =
     \<lparr>source_type = source_type relation, source_value = source_value relation,
      target_type = target_type relation, target_value = newValue,
      metadata = metadata relation, first_seen = first_seen relation, last_seen = now,
      strength = strength relation, connection_count = connection_count relation\<rparr>"

text \<open>
  The two \<^verbatim>\<open>for (const relation of ...)\<close> loops; \<open>rename\<close> is \<open>renamed_source newValue\<close> in
  the first and \<open>renamed_target newValue\<close> in the second, \<open>env i\<close> the environment of
  iteration \<open>i\<close>.
\<close>

fun reinsert_loop ::
  "(time \<Rightarrow> relation \<Rightarrow> relation) \<Rightarrow> (nat \<Rightarrow> insert_env) \<Rightarrow> nat \<Rightarrow> relation list \<Rightarrow> relation list
     \<Rightarrow> error + relation list" where
  "reinsert_loop rename env i [] tbl = Inr tbl"
| "reinsert_loop rename env i (relation # rest) tbl =
     (case query (insertError (env i))
             (insert_on_conflict rename_set (rename (insertDate (env i)) relation)) tbl of
        Inl e \<Rightarrow> Inl e
      | Inr (tbl', returned) \<Rightarrow> reinsert_loop rename env (Suc i) rest tbl')"

record rename_env =
  renameConnectError :: "error option"
  selectSourceError :: "error option"
  selectTargetError :: "error option"
  deleteSourceError :: "error option"
  deleteTargetError :: "error option"
  sourceInsert :: "nat \<Rightarrow> insert_env"
  targetInsert :: "nat \<Rightarrow> insert_env"

text \<open>
  The statements between \<^verbatim>\<open>BEGIN\<close> and \<^verbatim>\<open>COMMIT\<close>, on the table as the transaction sees
  it; the result is that table and \<^verbatim>\<open>totalUpdated\<close>.
\<close>

definition rename_transaction ::
  "rename_env \<Rightarrow> string \<Rightarrow> string \<Rightarrow> string \<Rightarrow> relation list \<Rightarrow> error + (relation list \<times> nat)" where
  "rename_transaction env fieldType oldValue newValue tbl =
     (case query (selectSourceError env) (select_source fieldType oldValue) tbl of
        Inl e \<Rightarrow> Inl e
      | Inr sourceRows \<Rightarrow>
     (case query (selectTargetError env) (select_target fieldType oldValue) tbl of
        Inl e \<Rightarrow> Inl e
      | Inr targetRows \<Rightarrow>
     (case query (deleteSourceError env) (delete_source fieldType oldValue) tbl of
        Inl e \<Rightarrow> Inl e
      | Inr tbl1 \<Rightarrow>
     (case query (deleteTargetError env) (delete_target fieldType oldValue) tbl1 of
        Inl e \<Rightarrow> Inl e
      | Inr tbl2 \<Rightarrow>
     (case reinsert_loop (renamed_source newValue) (sourceInsert env) 0 sourceRows tbl2 of
        Inl e \<Rightarrow> Inl e
      | Inr tbl3 \<Rightarrow>
     (case reinsert_loop (renamed_target newValue) (targetInsert env) 0 targetRows tbl3 of
        Inl e \<Rightarrow> Inl e
      | Inr tbl4 \<Rightarrow> Inr (tbl4, length sourceRows + length targetRows)))))))"

definition updateFieldValue ::
  "rename_env \<Rightarrow> string \<Rightarrow> string option \<Rightarrow> string option \<Rightarrow> world \<Rightarrow> (error + nat) \<times> world" where
  "updateFieldValue env fieldType oldValue newValue w =
     (if falsy oldValue \<or> falsy newValue \<or> oldValue = newValue then (Inr 0, w)
      else
        (let w1 = w\<lparr>relationsCache := invalidateCache fieldType (relationsCache w)\<rparr>
         in case renameConnectError env of
              Some e \<Rightarrow> (Inl e, w1)
            | None \<Rightarrow>
                (case rename_transaction env fieldType (text_of oldValue) (text_of newValue)
                        (relations w1) of
                   Inl e \<Rightarrow> (Inl e, w1)
                 | Inr (tbl, totalUpdated) \<Rightarrow> (Inr totalUpdated, w1\<lparr>relations := tbl\<rparr>))))"

text \<open>
  An environment in which the pool gives a client and no statement of the rename throws.
\<close>

definition no_faults :: "rename_env \<Rightarrow> bool" where
  "no_faults env =
     (renameConnectError env = None \<and> selectSourceError env = None
      \<and> selectTargetError env = None \<and> deleteSourceError env = None
      \<and> deleteTargetError env = None
      \<and> (\<forall>i. insertError (sourceInsert env i) = None)
      \<and> (\<forall>i. insertError (targetInsert env i) = None))"

text \<open>
  The merge as the specification words it, to compare with \<open>rename_set\<close>: strength the
  greater of the two, one more connection, \<open>last_seen\<close> the time of the re-insert,
  metadata of the re-inserted row.
\<close>

definition spec_merge :: "relation \<Rightarrow> relation \<Rightarrow> time \<Rightarrow> relation" where
  "spec_merge surviving reinserted now = surviving
     \<lparr>last_seen := now,
      strength := max (strength surviving) (strength reinserted),
      connection_count := connection_count surviving + 1,
      metadata := metadata reinserted\<rparr>"

section \<open>deleteOldRelations\<close>

text \<open>
  \<^verbatim>\<open>DELETE ... WHERE last_seen < NOW() - INTERVAL '1 day' * $1 RETURNING *\<close>: \<open>now\<close> is the store's
  clock, a day is 86400000 milliseconds (the deployment runs the store in UTC), \<open>days\<close> is a
  whole number. The result is the table left and the rows returned.
\<close>

definition delete_old :: "time \<Rightarrow> int \<Rightarrow> relation list \<Rightarrow> relation list \<times> relation list" where
  "delete_old now days tbl =
     (filter (\<lambda>r. \<not> last_seen r < now - 86400000 * days) tbl,
      filter (\<lambda>r. last_seen r < now - 86400000 * days) tbl)"

definition deleteOldRelations ::
  "error option \<Rightarrow> time \<Rightarrow> int \<Rightarrow> world \<Rightarrow> (error + nat) \<times> world" where
  "deleteOldRelations err now days w =
     (case query err (delete_old now days) (relations w) of
        Inl e \<Rightarrow> (Inl e, w)
      | Inr (tbl, returned) \<Rightarrow>
          (Inr (length returned),
           w\<lparr>relations := tbl, relationsCache := clearAllCaches (relationsCache w)\<rparr>))"

section \<open>Log rotation: checkLogFile\<close>

text \<open>
  A file holds bytes (\<open>string\<close>, a list of 8-bit characters); a JavaScript string is a list of
  UTF-16 code units. \<^verbatim>\<open>fs.readFile(filePath, 'utf8')\<close> decodes the bytes, replacing what is not
  UTF-8 by U+FFFD, and \<^verbatim>\<open>fs.writeFile(backupPath, data)\<close> encodes the string as UTF-8 again.

  The library functions \<^verbatim>\<open>checkLogFile\<close> relies on belong to the platform and are parameters
  of the model: \<^verbatim>\<open>path.join\<close>, the UTF-8 decoder and encoder of \<^verbatim>\<open>fs\<close>, and
  \<^verbatim>\<open>JSON.parse\<close> (\<open>Inl\<close> is the message of the \<^verbatim>\<open>SyntaxError\<close>).
\<close>

type_synonym js_string = "nat list"

datatype json =
  JArray "json list" | JObject "(string \<times> json) list" | JString string | JNumber int
  | JBool bool | JNull

record platform =
  path_join :: "string \<Rightarrow> string \<Rightarrow> string"
  utf8_decode :: "string \<Rightarrow> js_string"
  utf8_encode :: "js_string \<Rightarrow> string"
  JSON_parse :: "js_string \<Rightarrow> string + json"

text \<open>The payload of the \<^verbatim>\<open>log_file_corrupted\<close> event.\<close>

record system_event =
  event_name :: string
  event_file :: string
  event_backupPath :: string
  event_error :: string
  event_timestamp :: time

text \<open>The files (path and bytes) and the events the event logger has received.\<close>

record host =
  files :: "(string \<times> string) list"
  events :: "system_event list"

text \<open>
  What the environment decides during one check: whether \<^verbatim>\<open>fs.access\<close>, \<^verbatim>\<open>fs.readFile\<close> and
  \<^verbatim>\<open>fs.writeFile\<close> throw for a reason other than a missing file, whether
  \<^verbatim>\<open>eventLogger.logSystemEvent\<close> rejects, and the readings \<^verbatim>\<open>Date.now()\<close> and
  \<^verbatim>\<open>new Date()\<close>.
\<close>

record check_env =
  accessError :: "error option"
  readError :: "error option"
  writeError :: "error option"
  eventError :: "error option"
  dateNow :: time
  dateEvent :: time

record manager =
  dataDir :: string
  maxLogsPerFile :: nat

definition fs_access :: "error option \<Rightarrow> string \<Rightarrow> host \<Rightarrow> error + unit" where
  "fs_access err filePath h =
     (case map_of (files h) filePath of
        None \<Rightarrow> Inl (Error ''ENOENT'')
      | Some content \<Rightarrow> (case err of Some e \<Rightarrow> Inl e | None \<Rightarrow> Inr ()))"

text \<open>\<^verbatim>\<open>fs.readFile(filePath, 'utf8')\<close>: the decoded content.\<close>

definition fs_readFile :: "platform \<Rightarrow> error option \<Rightarrow> string \<Rightarrow> host \<Rightarrow> error + js_string" where
  "fs_readFile node err filePath h =
     (case map_of (files h) filePath of
        None \<Rightarrow> Inl (Error ''ENOENT'')
      | Some content \<Rightarrow> (case err of Some e \<Rightarrow> Inl e | None \<Rightarrow> Inr (utf8_decode node content)))"

text \<open>\<^verbatim>\<open>fs.writeFile(filePath, data)\<close> with a string: its UTF-8 encoding becomes the content.\<close>

definition fs_writeFile ::
  "platform \<Rightarrow> error option \<Rightarrow> string \<Rightarrow> js_string \<Rightarrow> host \<Rightarrow> error + host" where
  "fs_writeFile node err filePath data h =
     (case err of
        Some e \<Rightarrow> Inl e
      | None \<Rightarrow> Inr (h\<lparr>files := AList.update filePath (utf8_encode node data) (files h)\<rparr>))"

text \<open>
  \<^verbatim>\<open>eventLogger.logSystemEvent\<close> belongs to another module. It records the event, or it
  rejects (the environment's \<open>err\<close>) and records nothing; the specification gives it the
  contract of not rejecting, which the theorems that need it name as \<open>eventError env = None\<close>.
\<close>

definition logSystemEvent :: "error option \<Rightarrow> system_event \<Rightarrow> host \<Rightarrow> error + host" where
  "logSystemEvent err ev h =
     (case err of Some e \<Rightarrow> Inl e | None \<Rightarrow> Inr (h\<lparr>events := events h @ [ev]\<rparr>))"

definition isArray :: "json \<Rightarrow> bool" where
  "isArray v = (case v of JArray xs \<Rightarrow> True | _ \<Rightarrow> False)"

definition array_length :: "json \<Rightarrow> nat" where
  "array_length v = (case v of JArray xs \<Rightarrow> length xs | _ \<Rightarrow> 0)"

text \<open>The body of the outer \<^verbatim>\<open>try\<close>: \<open>Inl\<close> is an exception that reaches the outer \<^verbatim>\<open>catch\<close>.\<close>

definition checkLogFile_try ::
  "platform \<Rightarrow> check_env \<Rightarrow> manager \<Rightarrow> string \<Rightarrow> host \<Rightarrow> (error + bool) \<times> host" where
  "checkLogFile_try node env this fileName h =
     (let filePath = path_join node (dataDir this) fileName
      in case fs_access (accessError env) filePath h of
           Inl e \<Rightarrow> (Inl e, h)
         | Inr u \<Rightarrow>
        (case fs_readFile node (readError env) filePath h of
           Inl e \<Rightarrow> (Inl e, h)
         | Inr data \<Rightarrow>
        (case JSON_parse node data of
           Inl parseError \<Rightarrow>
             (let backupPath = filePath @ ''.corrupted.'' @ string_of_int (dateNow env)
              in case fs_writeFile node (writeError env) backupPath data h of
                   Inl e \<Rightarrow> (Inl e, h)
                 | Inr h1 \<Rightarrow>
                     (case logSystemEvent (eventError env)
                             \<lparr>event_name = ''log_file_corrupted'', event_file = fileName,
                              event_backupPath = backupPath, event_error = parseError,
                              event_timestamp = dateEvent env\<rparr> h1 of
                        Inl e \<Rightarrow> (Inl e, h1)
                      | Inr h2 \<Rightarrow> (Inr True, h2)))
         | Inr logs \<Rightarrow>
             if \<not> isArray logs then (Inr True, h)
             else if array_length logs \<ge> maxLogsPerFile this then (Inr True, h)
             else (Inr False, h))))"

text \<open>
  \<^verbatim>\<open>checkLogFile\<close>: the outer \<^verbatim>\<open>catch\<close> turns every exception of the body into \<^verbatim>\<open>false\<close>.
  The result type keeps the error case, so that "does not throw" is a statement about the
  result.
\<close>

definition checkLogFile ::
  "platform \<Rightarrow> check_env \<Rightarrow> manager \<Rightarrow> string \<Rightarrow> host \<Rightarrow> (error + bool) \<times> host" where
  "checkLogFile node env this fileName h =
     (case checkLogFile_try node env this fileName h of
        (Inl error, h') \<Rightarrow> (Inr False, h')
      | (Inr needsRotation, h') \<Rightarrow> (Inr needsRotation, h'))"

section \<open>Sample data\<close>

text \<open>Concrete environments, rows and files on which the theorems below are run.\<close>

definition sample_rename_env :: rename_env where
  "sample_rename_env =
     \<lparr>renameConnectError = None, selectSourceError = None, selectTargetError = None,
      deleteSourceError = None, deleteTargetError = None,
      sourceInsert = (\<lambda>i. \<lparr>insertError = None, insertDate = 1000 + int i\<rparr>),
      targetInsert = (\<lambda>i. \<lparr>insertError = None, insertDate = 2000 + int i\<rparr>)\<rparr>"

definition sample_edge :: "string \<Rightarrow> string \<Rightarrow> string \<Rightarrow> string \<Rightarrow> time \<Rightarrow> int \<Rightarrow> relation" where
  "sample_edge st sv tt tv seen n =
     \<lparr>source_type = st, source_value = sv, target_type = tt, target_value = tv,
      metadata = emptyMetadata, first_seen = 0, last_seen = seen,
      strength = n, connection_count = n\<rparr>"

definition sample_upsert_env :: "nat \<Rightarrow> upsert_env" where
  "sample_upsert_env i = \<lparr>queryError = None, dateFirst = 100 + int i, dateLast = 100 + int i\<rparr>"

definition failing_upsert_env :: "nat \<Rightarrow> upsert_env" where
  "failing_upsert_env i =
     \<lparr>queryError = (if i = 1 then Some (Error ''deadlock'') else None),
      dateFirst = 100 + int i, dateLast = 100 + int i\<rparr>"

definition sample_input :: "string \<Rightarrow> string \<Rightarrow> string \<Rightarrow> string \<Rightarrow> relation_input" where
  "sample_input st sv tt tv =
     \<lparr>sourceType = st, sourceValue = sv, targetType = tt, targetValue = tv,
      inputMetadata = emptyMetadata\<rparr>"

definition sample_world :: world where
  "sample_world =
     \<lparr>relations = [sample_edge ''ip'' ''1.2.3.4'' ''command'' ''ls'' 5 1,
                    sample_edge ''ip'' ''1.2.3.4'' ''command'' ''whoami'' 9 2],
      relationsCache = []\<rparr>"

definition sample_related :: "string \<Rightarrow> time \<Rightarrow> int \<Rightarrow> related" where
  "sample_related tv seen n =
     \<lparr>rel_target = tv, rel_type = ''command'', rel_strength = n, rel_connectionCount = n,
      rel_firstSeen = 0, rel_lastSeen = seen, rel_metadata = emptyMetadata\<rparr>"

definition sample_get_env :: "time \<Rightarrow> get_env" where
  "sample_get_env now = \<lparr>dateGet = now, getQueryError = None, datePut = now + 1\<rparr>"

definition sample_groups :: "relation_group list" where
  "sample_groups =
     [\<lparr>grp_source = ''1.2.3.4'', grp_type = ''ip'',
       grp_related = [sample_related ''whoami'' 9 2, sample_related ''ls'' 5 1]\<rparr>]"

definition sample_cached_world :: world where
  "sample_cached_world =
     sample_world\<lparr>relationsCache :=
       [(''ip_10'', \<lparr>item_data = sample_groups, item_timestamp = 1001\<rparr>)]\<rparr>"

definition sample_username_world :: world where
  "sample_username_world =
     \<lparr>relations = [sample_edge ''username'' ''alice'' ''command'' ''ls'' 5 1],
      relationsCache = []\<rparr>"

definition sample_username_groups :: "relation_group list" where
  "sample_username_groups =
     [\<lparr>grp_source = ''alice'', grp_type = ''username'',
       grp_related = [sample_related ''ls'' 5 1]\<rparr>]"

definition sample_username_cached_world :: world where
  "sample_username_cached_world =
     sample_username_world\<lparr>relationsCache :=
       [(''username_10'', \<lparr>item_data = sample_username_groups, item_timestamp = 1001\<rparr>)]\<rparr>"

text \<open>
  A platform for the sample files, which hold bytes below 0x80 and the byte 0xFF only: a byte
  below 0x80 decodes to its own code, 0xFF (which can start no UTF-8 sequence) to U+FFFD,
  and U+FFFD encodes as EF BF BD. Its parser knows two lists and rejects everything else.
\<close>

definition sample_platform :: platform where
  "sample_platform =
     \<lparr>path_join = (\<lambda>dir name. dir @ ''/'' @ name),
      utf8_decode = map (\<lambda>c. if of_char c < (128 :: nat) then of_char c else 65533),
      utf8_encode =
        (\<lambda>s. concat (map (\<lambda>u. if u < 128 then [char_of u]
                                else [CHR 0xEF, CHR 0xBF, CHR 0xBD]) s)),
      JSON_parse =
        (\<lambda>s. if s = [91, 93] then Inr (JArray [])
             else if s = [91, 49, 44, 50, 93] then Inr (JArray [JNumber 1, JNumber 2])
             else Inl ''Unexpected token'')\<rparr>"

definition sample_manager :: manager where
  "sample_manager = \<lparr>dataDir = ''data'', maxLogsPerFile = 2\<rparr>"

definition sample_host :: host where
  "sample_host =
     \<lparr>files = [(''data/audit_logs.json'', ''{oops''),
               (''data/data_logs.json'', ''[1,2]''),
               (''data/security_logs.json'', [CHR ''{'', CHR 0xFF])],
      events = []\<rparr>"

definition sample_check_env :: "error option \<Rightarrow> check_env" where
  "sample_check_env werr =
     \<lparr>accessError = None, readError = None, writeError = werr, eventError = None,
      dateNow = 1700, dateEvent = 1701\<rparr>"

definition sample_rename_world :: world where
  "sample_rename_world =
     \<lparr>relations = [sample_edge ''username'' ''alice'' ''command'' ''ls'' 5 5,
                    sample_edge ''username'' ''bob'' ''command'' ''ls'' 7 3,
                    sample_edge ''ip'' ''1.2.3.4'' ''username'' ''alice'' 2 4,
                    sample_edge ''ip'' ''1.2.3.4'' ''username'' ''bob'' 3 9],
      relationsCache = []\<rparr>"

section \<open>Upserts: counters and observation times\<close>

lemma find_relation_insert_absent:
  "find_relation (key_of ex) tbl = None \<Longrightarrow>
   find_relation (key_of ex) (fst (insert_on_conflict upd ex tbl)) = Some ex"
  by (induction tbl) (auto simp: find_relation_def split: prod.splits if_splits)

lemma find_relation_insert_present:
  "find_relation (key_of ex) tbl = Some r \<Longrightarrow> key_of (upd r ex) = key_of ex \<Longrightarrow>
   find_relation (key_of ex) (fst (insert_on_conflict upd ex tbl)) = Some (upd r ex)"
  by (induction tbl) (auto simp: find_relation_def split: prod.splits if_splits)

lemma key_of_upsert_set: "key_of (upsert_set r ex) = key_of r"
  by (simp add: key_of_def upsert_set_def)

lemma find_relation_key: "find_relation k tbl = Some r \<Longrightarrow> key_of r = k"
  by (induction tbl) (auto simp: find_relation_def split: if_splits)

lemma key_of_upsert_values: "key_of (upsert_values env st sv tt tv md) = (st, sv, tt, tv)"
  by (simp add: key_of_def upsert_values_def)

lemma relations_upsertRelation_ok:
  "queryError env = None \<Longrightarrow>
   relations (snd (upsertRelation env st sv tt tv md w)) =
     fst (insert_on_conflict upsert_set (upsert_values env st sv tt tv md) (relations w))"
  by (simp add: upsertRelation_def query_def Let_def split: prod.splits)

lemma relations_upsertRelation_fail:
  "queryError env = Some e \<Longrightarrow> relations (snd (upsertRelation env st sv tt tv md w)) = relations w"
  by (simp add: upsertRelation_def query_def Let_def split: prod.splits)

lemma upsert_present:
  assumes "find_relation (st, sv, tt, tv) (relations w) = Some r" and "queryError env = None"
  shows "find_relation (st, sv, tt, tv) (relations (snd (upsertRelation env st sv tt tv md w)))
       = Some (upsert_set r (upsert_values env st sv tt tv md))"
proof -
  let ?ex = "upsert_values env st sv tt tv md"
  have k: "key_of ?ex = (st, sv, tt, tv)" by (rule key_of_upsert_values)
  have kr: "key_of r = (st, sv, tt, tv)" using assms(1) by (rule find_relation_key)
  have "find_relation (key_of ?ex) (fst (insert_on_conflict upsert_set ?ex (relations w)))
          = Some (upsert_set r ?ex)"
    using assms(1) k kr by (intro find_relation_insert_present) (simp_all add: key_of_upsert_set)
  then show ?thesis using assms(2) k by (simp add: relations_upsertRelation_ok)
qed

lemma upsert_absent:
  assumes "find_relation (st, sv, tt, tv) (relations w) = None" and "queryError env = None"
  shows "find_relation (st, sv, tt, tv) (relations (snd (upsertRelation env st sv tt tv md w)))
       = Some (upsert_values env st sv tt tv md)"
proof -
  let ?ex = "upsert_values env st sv tt tv md"
  have k: "key_of ?ex = (st, sv, tt, tv)" by (rule key_of_upsert_values)
  have "find_relation (key_of ?ex) (fst (insert_on_conflict upsert_set ?ex (relations w))) = Some ?ex"
    using assms(1) k by (intro find_relation_insert_absent) simp
  then show ?thesis using assms(2) k by (simp add: relations_upsertRelation_ok)
qed

lemma last_seen_upsert_set:
  "last_seen (upsert_set r (upsert_values env st sv tt tv md)) = max (last_seen r) (observed (env, md))"
  by (simp add: upsert_set_def upsert_values_def observed_def max_def split: option.splits)

lemma repeat_present:
  "find_relation (st, sv, tt, tv) (relations w) = Some r \<Longrightarrow>
   \<forall>c \<in> set calls. queryError (fst c) = None \<Longrightarrow>
   \<exists>r'. find_relation (st, sv, tt, tv) (relations (upsertRepeatedly st sv tt tv calls w)) = Some r'
      \<and> strength r' = strength r + int (length calls)
      \<and> connection_count r' = connection_count r + int (length calls)
      \<and> last_seen r' = fold max (map observed calls) (last_seen r)"
proof (induction calls arbitrary: w r)
  case Nil
  then show ?case by simp
next
  case (Cons c calls)
  obtain env md where c: "c = (env, md)" by (cases c)
  let ?w = "snd (upsertRelation env st sv tt tv md w)"
  let ?r = "upsert_set r (upsert_values env st sv tt tv md)"
  have ok: "queryError env = None" using Cons.prems(2) c by simp
  have f: "find_relation (st, sv, tt, tv) (relations ?w) = Some ?r"
    using Cons.prems(1) ok by (rule upsert_present)
  have rest: "\<forall>c \<in> set calls. queryError (fst c) = None" using Cons.prems(2) by simp
  from Cons.IH [OF f rest] obtain r' where
    r': "find_relation (st, sv, tt, tv) (relations (upsertRepeatedly st sv tt tv calls ?w)) = Some r'"
      "strength r' = strength ?r + int (length calls)"
      "connection_count r' = connection_count ?r + int (length calls)"
      "last_seen r' = fold max (map observed calls) (last_seen ?r)" by blast
  have "strength ?r = strength r + 1" "connection_count ?r = connection_count r + 1"
    by (simp_all add: upsert_set_def)
  moreover have "last_seen ?r = max (observed c) (last_seen r)"
    by (simp add: last_seen_upsert_set c max.commute)
  ultimately show ?case using r' c by simp
qed

lemma fold_max_Max: "fold max xs (x::int) = Max (set (x # xs))"
  by (rule Max.set_eq_fold [symmetric])

text \<open>
  Claim C1. After N successful \<^verbatim>\<open>upsertRelation\<close> calls with one composite key that the table
  did not hold, the row of that key has \<open>strength = connection_count = N\<close> and its
  \<open>last_seen\<close> is the greatest observation time the calls supplied; and no upsert of a key
  (successful or not) lowers the \<open>last_seen\<close> of its row.
\<close>

theorem upsertRepeatedly_counts:
  assumes absent: "find_relation (st, sv, tt, tv) (relations w) = None"
      and nonempty: "calls \<noteq> []"
      and ok: "\<forall>c \<in> set calls. queryError (fst c) = None"
  shows "(\<exists>r. find_relation (st, sv, tt, tv) (relations (upsertRepeatedly st sv tt tv calls w)) = Some r
            \<and> strength r = int (length calls)
            \<and> connection_count r = int (length calls)
            \<and> last_seen r = Max (set (map observed calls)))
       \<and> (\<forall>env md w0 r0. find_relation (st, sv, tt, tv) (relations w0) = Some r0 \<longrightarrow>
            (\<exists>r1. find_relation (st, sv, tt, tv)
                    (relations (snd (upsertRelation env st sv tt tv md w0))) = Some r1
                \<and> last_seen r0 \<le> last_seen r1))"
    (is "?counts \<and> ?monotone")
proof
  obtain env md rest where calls: "calls = (env, md) # rest"
    using nonempty by (cases calls) auto
  let ?w = "snd (upsertRelation env st sv tt tv md w)"
  let ?r = "upsert_values env st sv tt tv md"
  have ok1: "queryError env = None" and okr: "\<forall>c \<in> set rest. queryError (fst c) = None"
    using ok calls by simp_all
  have f: "find_relation (st, sv, tt, tv) (relations ?w) = Some ?r"
    using absent ok1 by (rule upsert_absent)
  from repeat_present [OF f okr] obtain r' where
    r': "find_relation (st, sv, tt, tv) (relations (upsertRepeatedly st sv tt tv rest ?w)) = Some r'"
      "strength r' = strength ?r + int (length rest)"
      "connection_count r' = connection_count ?r + int (length rest)"
      "last_seen r' = fold max (map observed rest) (last_seen ?r)" by blast
  have first: "strength ?r = 1" "connection_count ?r = 1" "last_seen ?r = observed (env, md)"
    by (simp_all add: upsert_values_def observed_def split: option.splits)
  have "last_seen r' = Max (set (map observed calls))"
    using r'(4) first(3) calls by (simp add: fold_max_Max)
  then show ?counts
    using r' first calls by simp
next
  show ?monotone
  proof (intro allI impI)
    fix env md and w0 :: world and r0 :: relation
    assume f: "find_relation (st, sv, tt, tv) (relations w0) = Some r0"
    show "\<exists>r1. find_relation (st, sv, tt, tv)
                    (relations (snd (upsertRelation env st sv tt tv md w0))) = Some r1
                \<and> last_seen r0 \<le> last_seen r1"
    proof (cases "queryError env")
      case None
      from upsert_present [OF f None, of md] show ?thesis
        by (simp add: last_seen_upsert_set)
    next
      case (Some e)
      then show ?thesis using f by (simp add: relations_upsertRelation_fail)
    qed
  qed
qed

theorem upsertRepeatedly_counts_witness:
  "find_relation (''ip'', ''1.2.3.4'', ''command'', ''ls'') (relations \<lparr>relations = [], relationsCache = []\<rparr>) = None
   \<and> (\<exists>r. find_relation (''ip'', ''1.2.3.4'', ''command'', ''ls'')
          (relations (upsertRepeatedly ''ip'' ''1.2.3.4'' ''command'' ''ls''
             [(\<lparr>queryError = None, dateFirst = 7, dateLast = 8\<rparr>,
               \<lparr>firstSeen = None, timestamp = Some 50, attributes = []\<rparr>),
              (\<lparr>queryError = None, dateFirst = 20, dateLast = 21\<rparr>, emptyMetadata)]
             \<lparr>relations = [], relationsCache = []\<rparr>)) = Some r
        \<and> strength r = 2 \<and> connection_count r = 2 \<and> last_seen r = 50)"
proof -
  let ?calls = "[(\<lparr>queryError = None, dateFirst = 7, dateLast = 8\<rparr>,
               \<lparr>firstSeen = None, timestamp = Some 50, attributes = []\<rparr>),
              (\<lparr>queryError = None, dateFirst = 20, dateLast = 21\<rparr>, emptyMetadata)]"
  let ?w = "\<lparr>relations = [], relationsCache = []\<rparr>"
  have h1: "find_relation (''ip'', ''1.2.3.4'', ''command'', ''ls'') (relations ?w) = None"
    by (simp add: find_relation_def)
  have h2: "?calls \<noteq> []" by simp
  have h3: "\<forall>c \<in> set ?calls. queryError (fst c) = None" by simp
  have m: "Max (set (map observed ?calls)) = 50"
    by (simp add: observed_def emptyMetadata_def)
  from upsertRepeatedly_counts [OF h1 h2 h3] m h1 show ?thesis by simp
qed

text \<open>
  Claim C9. When the storage statement of \<^verbatim>\<open>upsertRelation\<close> throws, the error is the
  result, the table is unchanged, and the cache has already lost every key that starts with
  the source type or with the target type.
\<close>

theorem upsertRelation_error_keeps_invalidation:
  assumes "queryError env = Some e"
  shows "upsertRelation env st sv tt tv md w =
           (Inl e, w\<lparr>relationsCache := invalidateCache tt (invalidateCache st (relationsCache w))\<rparr>)
       \<and> relations (snd (upsertRelation env st sv tt tv md w)) = relations w
       \<and> (\<forall>key \<in> fst ` set (relationsCache (snd (upsertRelation env st sv tt tv md w))).
             \<not> prefix st key \<and> \<not> prefix tt key)"
  using assms by (auto simp: upsertRelation_def query_def Let_def invalidateCache_def)

theorem upsertRelation_error_keeps_invalidation_witness:
  "queryError \<lparr>queryError = Some (Error ''down''), dateFirst = 1, dateLast = 2\<rparr> = Some (Error ''down'')
   \<and> upsertRelation \<lparr>queryError = Some (Error ''down''), dateFirst = 1, dateLast = 2\<rparr>
        ''ip'' ''1.2.3.4'' ''command'' ''ls'' emptyMetadata
        \<lparr>relations = [],
         relationsCache = [(''ip_10'', \<lparr>item_data = [], item_timestamp = 5\<rparr>),
                           (''username_10'', \<lparr>item_data = [], item_timestamp = 6\<rparr>),
                           (''command_3'', \<lparr>item_data = [], item_timestamp = 7\<rparr>)]\<rparr>
     = (Inl (Error ''down''),
        \<lparr>relations = [],
         relationsCache = [(''username_10'', \<lparr>item_data = [], item_timestamp = 6\<rparr>)]\<rparr>)"
  using upsertRelation_error_keeps_invalidation
    [of "\<lparr>queryError = Some (Error ''down''), dateFirst = 1, dateLast = 2\<rparr>" "Error ''down''"
        "''ip''" "''1.2.3.4''" "''command''" "''ls''" emptyMetadata
        "\<lparr>relations = [],
         relationsCache = [(''ip_10'', \<lparr>item_data = [], item_timestamp = 5\<rparr>),
                           (''username_10'', \<lparr>item_data = [], item_timestamp = 6\<rparr>),
                           (''command_3'', \<lparr>item_data = [], item_timestamp = 7\<rparr>)]\<rparr>"]
  by (simp add: invalidateCache_def)

text \<open>
  Claim C7. With \<^verbatim>\<open>oldValue\<close> falsy, \<^verbatim>\<open>newValue\<close> falsy or the two equal,
  \<^verbatim>\<open>updateFieldValue\<close> returns 0 and leaves table and cache as they were.
\<close>

theorem updateFieldValue_noop:
  assumes "falsy oldValue \<or> falsy newValue \<or> oldValue = newValue"
  shows "updateFieldValue env fieldType oldValue newValue w = (Inr 0, w)"
  using assms by (simp add: updateFieldValue_def)

theorem updateFieldValue_noop_witness:
  "(falsy (Some ''alice'') \<or> falsy (Some ''alice'') \<or> Some ''alice'' = Some ''alice'')
   \<and> updateFieldValue sample_rename_env ''username'' (Some ''alice'') (Some ''alice'')
         sample_rename_world = (Inr 0, sample_rename_world)
   \<and> updateFieldValue sample_rename_env ''username'' None (Some ''bob'')
         sample_rename_world = (Inr 0, sample_rename_world)
   \<and> updateFieldValue sample_rename_env ''username'' (Some ''alice'') (Some [])
         sample_rename_world = (Inr 0, sample_rename_world)"
  using updateFieldValue_noop
      [of "Some ''alice''" "Some ''alice''" sample_rename_env "''username''" sample_rename_world]
    updateFieldValue_noop
      [of None "Some ''bob''" sample_rename_env "''username''" sample_rename_world]
    updateFieldValue_noop
      [of "Some ''alice''" "Some []" sample_rename_env "''username''" sample_rename_world]
  by (simp add: falsy_def)

section \<open>Rename: the returned total\<close>

lemma reinsert_loop_ok:
  "\<forall>i. insertError (env i) = None \<Longrightarrow> \<exists>tbl'. reinsert_loop rename env i rows tbl = Inr tbl'"
  by (induction rows arbitrary: i tbl) (auto simp: query_def split: prod.splits)

lemma length_filter_both:
  "length (filter P xs) + length (filter Q xs)
     = length (filter (\<lambda>x. P x \<or> Q x) xs) + length (filter (\<lambda>x. P x \<and> Q x) xs)"
  by (induction xs) auto

lemma rename_transaction_ok:
  assumes "selectSourceError env = None" "selectTargetError env = None"
    and "deleteSourceError env = None" "deleteTargetError env = None"
    and "\<forall>i. insertError (sourceInsert env i) = None"
    and "\<forall>i. insertError (targetInsert env i) = None"
  shows "\<exists>tbl'. rename_transaction env ft old new tbl
           = Inr (tbl', length (select_source ft old tbl) + length (select_target ft old tbl))"
proof -
  let ?t2 = "delete_target ft old (delete_source ft old tbl)"
  obtain t3 where t3: "reinsert_loop (renamed_source new) (sourceInsert env) 0
                         (select_source ft old tbl) ?t2 = Inr t3"
    using reinsert_loop_ok [OF assms(5)] by blast
  obtain t4 where t4: "reinsert_loop (renamed_target new) (targetInsert env) 0
                         (select_target ft old tbl) t3 = Inr t4"
    using reinsert_loop_ok [OF assms(6)] by blast
  show ?thesis
    using assms(1-4) t3 t4 by (simp add: rename_transaction_def query_def)
qed

text \<open>
  Claim C3. When the rename runs to its commit, \<^verbatim>\<open>updateFieldValue\<close> returns the number of
  rows the source-side filter matched plus the number the target-side filter matched: the
  rows that match either filter, plus once more the rows that match both.
\<close>

theorem updateFieldValue_total:
  assumes "\<not> falsy oldValue" "\<not> falsy newValue" "oldValue \<noteq> newValue"
    and "no_faults env"
  shows "fst (updateFieldValue env fieldType oldValue newValue w)
           = Inr (length (select_source fieldType (text_of oldValue) (relations w))
                  + length (select_target fieldType (text_of oldValue) (relations w)))
       \<and> fst (updateFieldValue env fieldType oldValue newValue w)
           = Inr (length (filter (\<lambda>r. source_type r = fieldType \<and> source_value r = text_of oldValue
                                    \<or> target_type r = fieldType \<and> target_value r = text_of oldValue)
                           (relations w))
                  + length (filter (\<lambda>r. (source_type r = fieldType \<and> source_value r = text_of oldValue)
                                    \<and> target_type r = fieldType \<and> target_value r = text_of oldValue)
                           (relations w)))"
proof -
  have "\<exists>tbl'. rename_transaction env fieldType (text_of oldValue) (text_of newValue) (relations w)
      = Inr (tbl', length (select_source fieldType (text_of oldValue) (relations w))
                  + length (select_target fieldType (text_of oldValue) (relations w)))"
    using assms(4) unfolding no_faults_def by (intro rename_transaction_ok) simp_all
  then obtain tbl' where t: "rename_transaction env fieldType (text_of oldValue) (text_of newValue) (relations w)
      = Inr (tbl', length (select_source fieldType (text_of oldValue) (relations w))
                  + length (select_target fieldType (text_of oldValue) (relations w)))" ..
  have first: "fst (updateFieldValue env fieldType oldValue newValue w)
           = Inr (length (select_source fieldType (text_of oldValue) (relations w))
                  + length (select_target fieldType (text_of oldValue) (relations w)))"
    using assms t by (simp add: updateFieldValue_def Let_def no_faults_def)
  have both: "length (select_source fieldType (text_of oldValue) (relations w))
                + length (select_target fieldType (text_of oldValue) (relations w))
      = length (filter (\<lambda>r. source_type r = fieldType \<and> source_value r = text_of oldValue
                               \<or> target_type r = fieldType \<and> target_value r = text_of oldValue)
                  (relations w))
        + length (filter (\<lambda>r. (source_type r = fieldType \<and> source_value r = text_of oldValue)
                               \<and> target_type r = fieldType \<and> target_value r = text_of oldValue)
                  (relations w))"
    unfolding select_source_def select_target_def by (rule length_filter_both)
  show ?thesis
    using first both by (simp only:)
qed

theorem updateFieldValue_total_witness:
  "\<not> falsy (Some ''alice'') \<and> \<not> falsy (Some ''bob'') \<and> Some ''alice'' \<noteq> Some ''bob''
   \<and> no_faults sample_rename_env
   \<and> fst (updateFieldValue sample_rename_env ''username'' (Some ''alice'') (Some ''bob'')
        \<lparr>relations = [sample_edge ''username'' ''alice'' ''username'' ''alice'' 5 1,
                       sample_edge ''username'' ''alice'' ''command'' ''ls'' 6 1],
         relationsCache = []\<rparr>) = Inr 3"
proof -
  let ?w = "\<lparr>relations = [sample_edge ''username'' ''alice'' ''username'' ''alice'' 5 1,
                       sample_edge ''username'' ''alice'' ''command'' ''ls'' 6 1],
         relationsCache = []\<rparr>"
  have h: "\<not> falsy (Some ''alice'')" "\<not> falsy (Some ''bob'')" "Some ''alice'' \<noteq> Some ''bob''"
    by (simp_all add: falsy_def)
  have e: "no_faults sample_rename_env"
    by (simp add: no_faults_def sample_rename_env_def)
  from updateFieldValue_total [OF h e, of "''username''" ?w] h e show ?thesis
    by (simp add: select_source_def select_target_def sample_edge_def text_of_def)
qed

section \<open>Pruning by age\<close>

text \<open>
  Claim C6. A \<^verbatim>\<open>deleteOldRelations\<close> whose statement succeeds keeps exactly the rows whose
  \<open>last_seen\<close> is not before \<open>now\<close> minus the given number of days, returns the number of
  rows it removed, and leaves the cache empty.
\<close>

theorem deleteOldRelations_exact:
  "deleteOldRelations None now days w =
     (Inr (length (filter (\<lambda>r. last_seen r < now - 86400000 * days) (relations w))),
      w\<lparr>relations := filter (\<lambda>r. now - 86400000 * days \<le> last_seen r) (relations w),
        relationsCache := []\<rparr>)
   \<and> set (filter (\<lambda>r. now - 86400000 * days \<le> last_seen r) (relations w))
       = set (relations w) - {r. last_seen r < now - 86400000 * days}
   \<and> length (filter (\<lambda>r. last_seen r < now - 86400000 * days) (relations w))
       + length (filter (\<lambda>r. now - 86400000 * days \<le> last_seen r) (relations w))
       = length (relations w)"
proof -
  let ?old = "\<lambda>r. last_seen r < now - 86400000 * days"
  have kept: "filter (\<lambda>r. \<not> ?old r) (relations w)
                = filter (\<lambda>r. now - 86400000 * days \<le> last_seen r) (relations w)"
    by (simp add: not_less)
  have run: "deleteOldRelations None now days w =
     (Inr (length (filter ?old (relations w))),
      w\<lparr>relations := filter (\<lambda>r. now - 86400000 * days \<le> last_seen r) (relations w),
        relationsCache := []\<rparr>)"
    unfolding kept [symmetric]
    by (simp add: deleteOldRelations_def query_def delete_old_def clearAllCaches_def)
  have total: "length (filter ?old (relations w)) + length (filter (\<lambda>r. \<not> ?old r) (relations w))
      = length (relations w)"
    by (rule sum_length_filter_compl)
  have sets: "set (filter (\<lambda>r. now - 86400000 * days \<le> last_seen r) (relations w))
       = set (relations w) - {r. ?old r}"
    by auto
  show ?thesis
    using run sets total unfolding kept by blast
qed

theorem deleteOldRelations_exact_witness:
  "deleteOldRelations None 3456000000 30
     \<lparr>relations = [sample_edge ''ip'' ''1.2.3.4'' ''command'' ''ls'' 863999999 2,
                    sample_edge ''ip'' ''1.2.3.4'' ''command'' ''whoami'' 864000000 1],
      relationsCache = [(''ip_10'', \<lparr>item_data = [], item_timestamp = 3455999000\<rparr>)]\<rparr>
   = (Inr 1,
      \<lparr>relations = [sample_edge ''ip'' ''1.2.3.4'' ''command'' ''whoami'' 864000000 1],
       relationsCache = []\<rparr>)"
  using deleteOldRelations_exact [of 3456000000 30
     "\<lparr>relations = [sample_edge ''ip'' ''1.2.3.4'' ''command'' ''ls'' 863999999 2,
                    sample_edge ''ip'' ''1.2.3.4'' ''command'' ''whoami'' 864000000 1],
      relationsCache = [(''ip_10'', \<lparr>item_data = [], item_timestamp = 3455999000\<rparr>)]\<rparr>"]
  by (simp add: sample_edge_def)

section \<open>The cache in front of getRelations\<close>

lemma map_of_invalidateCache:
  "map_of (invalidateCache relationType c) key
     = (if prefix relationType key then None else map_of c key)"
  by (induction c) (auto simp: invalidateCache_def)

lemma prefix_cacheKey: "prefix type (cacheKey type limit)"
  by (simp add: cacheKey_def)

lemma getCachedData_invalidated:
  "prefix relationType key \<Longrightarrow> getCachedData now key (invalidateCache relationType c) = None"
  by (simp add: getCachedData_def map_of_invalidateCache)

lemma getCachedData_invalidated_twice:
  "prefix a key \<or> prefix b key \<Longrightarrow>
   getCachedData now key (invalidateCache b (invalidateCache a c)) = None"
  by (auto simp: getCachedData_def map_of_invalidateCache)

lemma relationsCache_upsertRelation:
  "relationsCache (snd (upsertRelation env st sv tt tv md w))
     = invalidateCache tt (invalidateCache st (relationsCache w))"
  by (simp add: upsertRelation_def query_def Let_def split: option.splits prod.splits)

lemma upsertEach_Cons:
  "upsertEach (c # rest) w =
     (fst (upsertRelation (fst c) (sourceType (snd c)) (sourceValue (snd c)) (targetType (snd c))
             (targetValue (snd c)) (inputMetadata (snd c)) w)
        # fst (upsertEach rest
                 (snd (upsertRelation (fst c) (sourceType (snd c)) (sourceValue (snd c))
                         (targetType (snd c)) (targetValue (snd c)) (inputMetadata (snd c)) w))),
      snd (upsertEach rest
             (snd (upsertRelation (fst c) (sourceType (snd c)) (sourceValue (snd c))
                     (targetType (snd c)) (targetValue (snd c)) (inputMetadata (snd c)) w))))"
  by (cases c) (simp split: prod.splits)

lemma map_of_upsertEach:
  "\<forall>c \<in> set calls. \<not> prefix (sourceType (snd c)) key \<and> \<not> prefix (targetType (snd c)) key \<Longrightarrow>
   map_of (relationsCache (snd (upsertEach calls w))) key = map_of (relationsCache w) key"
proof (induction calls arbitrary: w)
  case Nil
  then show ?case by simp
next
  case (Cons c rest)
  then show ?case
    by (simp add: upsertEach_Cons relationsCache_upsertRelation map_of_invalidateCache
             del: upsertEach.simps(2))
qed

lemma getCachedData_entry:
  "map_of c key = map_of c' key \<Longrightarrow> getCachedData now key c = getCachedData now key c'"
  by (simp add: getCachedData_def)

lemma getRelations_hit:
  "getCachedData (dateGet env) (cacheKey type limit) (relationsCache w) = Some d \<Longrightarrow>
   getRelations env type limit w = (Inr d, w)"
  by (simp add: getRelations_def)

lemma getRelations_miss:
  "getCachedData (dateGet env) (cacheKey type limit) (relationsCache w) = None \<Longrightarrow>
   getQueryError env = None \<Longrightarrow>
   getRelations env type limit w =
     (Inr (formatRelations (select_ranked type limit (relations w))),
      w\<lparr>relationsCache := cacheData (datePut env) (cacheKey type limit)
            (formatRelations (select_ranked type limit (relations w))) (relationsCache w)\<rparr>)"
  by (simp add: getRelations_def query_def Let_def)

lemma getRelations_miss_error:
  "getCachedData (dateGet env) (cacheKey type limit) (relationsCache w) = None \<Longrightarrow>
   getQueryError env = Some e \<Longrightarrow>
   getRelations env type limit w = (Inl e, w)"
  by (simp add: getRelations_def query_def Let_def)

lemma getRelations_leaves_entry:
  assumes "getRelations env type limit w0 = (Inr d, w1)"
  shows "\<exists>t. map_of (relationsCache w1) (cacheKey type limit) = Some \<lparr>item_data = d, item_timestamp = t\<rparr>
           \<and> (getCachedData (dateGet env) (cacheKey type limit) (relationsCache w0) = None
                \<longrightarrow> t = datePut env)"
proof (cases "getCachedData (dateGet env) (cacheKey type limit) (relationsCache w0)")
  case (Some d')
  with assms have "d' = d" "w1 = w0" by (simp_all add: getRelations_def)
  with Some obtain a where a: "map_of (relationsCache w0) (cacheKey type limit) = Some a"
      "dateGet env - item_timestamp a < RELATIONS_CACHE_TTL" "d = item_data a"
    by (cases "map_of (relationsCache w0) (cacheKey type limit)")
       (auto simp: getCachedData_def split: if_splits)
  have "a = \<lparr>item_data = d, item_timestamp = item_timestamp a\<rparr>"
    using a(3) by (cases a) simp
  then show ?thesis
    using a(1) Some \<open>w1 = w0\<close> by auto
next
  case None
  with assms show ?thesis
    by (cases "getQueryError env")
       (auto simp: getRelations_def query_def Let_def cacheData_def update_conv')
qed

lemma cacheKey_ip_10: "cacheKey ''ip'' 10 = ''ip_10''"
  by (simp add: cacheKey_def string_of_int_def string_of_nat.simps digit_char_def)

lemma cacheKey_username_10: "cacheKey ''username'' 10 = ''username_10''"
  by (simp add: cacheKey_def string_of_int_def string_of_nat.simps digit_char_def)

lemma sample_username_first_call:
  "getRelations (sample_get_env 1000) ''username'' 10 sample_username_world
     = (Inr sample_username_groups, sample_username_cached_world)"
  by (simp add: getRelations_def cacheKey_username_10 getCachedData_def sample_username_world_def
        sample_get_env_def query_def select_ranked_def order_by_last_seen_desc_def
        sample_edge_def partition_value_def formatRelations_def related_of_def
        sample_related_def cacheData_def Let_def sample_username_groups_def
        sample_username_cached_world_def)

lemma sample_username_cache_after_user_upsert:
  "relationsCache (snd (upsertRelation (sample_upsert_env 0) ''user'' ''u1'' ''command'' ''id''
                          emptyMetadata sample_username_cached_world)) = []"
  by (simp add: relationsCache_upsertRelation invalidateCache_def sample_username_cached_world_def)

text \<open>
  Claim C5, as stated, fails. A first \<^verbatim>\<open>getRelations("username", 10)\<close> stores its result at
  time 1001. An \<^verbatim>\<open>upsertRelation\<close> follows whose types are \<^verbatim>\<open>"user"\<close> and \<^verbatim>\<open>"command"\<close>: it is no
  write on the type \<^verbatim>\<open>"username"\<close>, but \<^verbatim>\<open>"username_10"\<close> starts with \<^verbatim>\<open>"user"\<close>, so the entry is
  removed. The second \<^verbatim>\<open>getRelations("username", 10)\<close>, 999 ms after the entry was stored, goes
  to the store: with the store down it returns the error, where the cached object was
  promised (and is returned when the upsert is left out).
\<close>

theorem getRelations_recomputes_after_prefix_upsert:
  "getRelations (sample_get_env 1000) ''username'' 10 sample_username_world
     = (Inr sample_username_groups, sample_username_cached_world)
   \<and> map_option item_timestamp (map_of (relationsCache sample_username_cached_world) ''username_10'')
       = Some 1001
   \<and> (2000 :: int) - 1001 < RELATIONS_CACHE_TTL
   \<and> ''user'' \<noteq> ''username'' \<and> ''command'' \<noteq> ''username''
   \<and> getRelations \<lparr>dateGet = 2000, getQueryError = Some (Error ''down''), datePut = 2001\<rparr>
        ''username'' 10 sample_username_cached_world
       = (Inr sample_username_groups, sample_username_cached_world)
   \<and> fst (getRelations \<lparr>dateGet = 2000, getQueryError = Some (Error ''down''), datePut = 2001\<rparr>
        ''username'' 10
        (snd (upsertRelation (sample_upsert_env 0) ''user'' ''u1'' ''command'' ''id''
                emptyMetadata sample_username_cached_world)))
       = Inl (Error ''down'')"
proof -
  let ?env2 = "\<lparr>dateGet = 2000, getQueryError = Some (Error ''down''), datePut = 2001\<rparr>"
  let ?w2 = "snd (upsertRelation (sample_upsert_env 0) ''user'' ''u1'' ''command'' ''id''
                emptyMetadata sample_username_cached_world)"
  have stored: "map_option item_timestamp
                  (map_of (relationsCache sample_username_cached_world) ''username_10'') = Some 1001"
    by (simp add: sample_username_cached_world_def)
  have served: "getRelations ?env2 ''username'' 10 sample_username_cached_world
       = (Inr sample_username_groups, sample_username_cached_world)"
    by (rule getRelations_hit)
       (simp add: cacheKey_username_10 getCachedData_def sample_username_cached_world_def
          RELATIONS_CACHE_TTL_def)
  have "getCachedData (dateGet ?env2) (cacheKey ''username'' 10) (relationsCache ?w2) = None"
    by (simp add: sample_username_cache_after_user_upsert getCachedData_def)
  then have "getRelations ?env2 ''username'' 10 ?w2 = (Inl (Error ''down''), ?w2)"
    by (rule getRelations_miss_error) simp
  then show ?thesis
    using sample_username_first_call stored served by (simp add: RELATIONS_CACHE_TTL_def)
qed

text \<open>
  Claim C5, amended. After a \<^verbatim>\<open>getRelations\<close> that returned \<open>d1\<close>, the cache holds \<open>d1\<close> under
  the key \<^verbatim>\<open>"<type>_<limit>"\<close> with a time \<open>t\<close> (the time of storing, when the call computed it).
  Every call for the same type and limit that reads the clock less than 30000 ms after \<open>t\<close>
  returns \<open>d1\<close> and changes nothing, whatever the table then holds, on any world whose cache
  still has that entry; in particular after any sequence of \<^verbatim>\<open>upsertRelation\<close> calls none of
  whose source and target types is a prefix of the key. An \<^verbatim>\<open>upsertRelation\<close> with a source or
  target type that is a prefix of the key removes the entry; after one whose source or target
  type is the type asked for, a \<^verbatim>\<open>getRelations\<close> whose query succeeds computes its result from
  the table and stores it.
\<close>

theorem getRelations_cached_within_ttl:
  "(getRelations env1 type limit w0 = (Inr d1, w1) \<longrightarrow>
      (\<exists>t. map_option item_timestamp (map_of (relationsCache w1) (cacheKey type limit)) = Some t
         \<and> (getCachedData (dateGet env1) (cacheKey type limit) (relationsCache w0) = None
              \<longrightarrow> t = datePut env1)
         \<and> (\<forall>env2 w'. map_of (relationsCache w') (cacheKey type limit)
                         = map_of (relationsCache w1) (cacheKey type limit)
                       \<and> dateGet env2 - t < 30000 \<longrightarrow>
               getRelations env2 type limit w' = (Inr d1, w'))
         \<and> (\<forall>env2 calls.
               (\<forall>c \<in> set calls. \<not> prefix (sourceType (snd c)) (cacheKey type limit)
                                \<and> \<not> prefix (targetType (snd c)) (cacheKey type limit))
               \<and> dateGet env2 - t < 30000 \<longrightarrow>
               getRelations env2 type limit (snd (upsertEach calls w1))
                 = (Inr d1, snd (upsertEach calls w1)))))
   \<and> (prefix st (cacheKey type limit) \<or> prefix tt (cacheKey type limit) \<longrightarrow>
        getCachedData now (cacheKey type limit)
          (relationsCache (snd (upsertRelation uenv st sv tt tv md w))) = None)
   \<and> ((st = type \<or> tt = type) \<and> getQueryError env3 = None \<longrightarrow>
        getRelations env3 type limit (snd (upsertRelation uenv st sv tt tv md w)) =
          (Inr (formatRelations (select_ranked type limit
                  (relations (snd (upsertRelation uenv st sv tt tv md w))))),
           (snd (upsertRelation uenv st sv tt tv md w))
             \<lparr>relationsCache :=
                cacheData (datePut env3) (cacheKey type limit)
                  (formatRelations (select_ranked type limit
                     (relations (snd (upsertRelation uenv st sv tt tv md w)))))
                  (relationsCache (snd (upsertRelation uenv st sv tt tv md w)))\<rparr>))"
    (is "?served \<and> ?removed \<and> ?fresh")
proof (intro conjI)
  show ?served
  proof
    assume "getRelations env1 type limit w0 = (Inr d1, w1)"
    from getRelations_leaves_entry [OF this] obtain t where
      entry: "map_of (relationsCache w1) (cacheKey type limit) = Some \<lparr>item_data = d1, item_timestamp = t\<rparr>"
      and put: "getCachedData (dateGet env1) (cacheKey type limit) (relationsCache w0) = None
                \<longrightarrow> t = datePut env1" by auto
    have hit: "getRelations env2 type limit w' = (Inr d1, w')"
      if "map_of (relationsCache w') (cacheKey type limit)
            = map_of (relationsCache w1) (cacheKey type limit)"
        and "dateGet env2 - t < 30000" for env2 and w' :: world
      using that entry
      by (intro getRelations_hit) (simp add: getCachedData_def RELATIONS_CACHE_TTL_def)
    have kept: "getRelations env2 type limit (snd (upsertEach calls w1))
                  = (Inr d1, snd (upsertEach calls w1))"
      if "\<forall>c \<in> set calls. \<not> prefix (sourceType (snd c)) (cacheKey type limit)
                                \<and> \<not> prefix (targetType (snd c)) (cacheKey type limit)"
        and "dateGet env2 - t < 30000" for env2 calls
      using map_of_upsertEach [OF that(1)] that(2) by (intro hit) simp_all
    have stamp: "map_option item_timestamp (map_of (relationsCache w1) (cacheKey type limit)) = Some t"
      using entry by simp
    show "\<exists>t. map_option item_timestamp (map_of (relationsCache w1) (cacheKey type limit)) = Some t
         \<and> (getCachedData (dateGet env1) (cacheKey type limit) (relationsCache w0) = None
              \<longrightarrow> t = datePut env1)
         \<and> (\<forall>env2 w'. map_of (relationsCache w') (cacheKey type limit)
                         = map_of (relationsCache w1) (cacheKey type limit)
                       \<and> dateGet env2 - t < 30000 \<longrightarrow>
               getRelations env2 type limit w' = (Inr d1, w'))
         \<and> (\<forall>env2 calls.
               (\<forall>c \<in> set calls. \<not> prefix (sourceType (snd c)) (cacheKey type limit)
                                \<and> \<not> prefix (targetType (snd c)) (cacheKey type limit))
               \<and> dateGet env2 - t < 30000 \<longrightarrow>
               getRelations env2 type limit (snd (upsertEach calls w1))
                 = (Inr d1, snd (upsertEach calls w1)))"
    proof (intro exI [of _ t] conjI allI impI)
      show "map_option item_timestamp (map_of (relationsCache w1) (cacheKey type limit)) = Some t"
        by (rule stamp)
      show "t = datePut env1"
        if "getCachedData (dateGet env1) (cacheKey type limit) (relationsCache w0) = None"
        using put that by simp
      show "getRelations env2 type limit w' = (Inr d1, w')"
        if "map_of (relationsCache w') (cacheKey type limit)
              = map_of (relationsCache w1) (cacheKey type limit) \<and> dateGet env2 - t < 30000"
        for env2 and w' :: world
        using that by (intro hit) simp_all
      show "getRelations env2 type limit (snd (upsertEach calls w1))
              = (Inr d1, snd (upsertEach calls w1))"
        if "(\<forall>c \<in> set calls. \<not> prefix (sourceType (snd c)) (cacheKey type limit)
                                \<and> \<not> prefix (targetType (snd c)) (cacheKey type limit))
            \<and> dateGet env2 - t < 30000"
        for env2 calls
        using that by (intro kept) simp_all
    qed
  qed
  show ?removed
    unfolding relationsCache_upsertRelation by (intro impI getCachedData_invalidated_twice)
  show ?fresh
  proof
    assume a: "(st = type \<or> tt = type) \<and> getQueryError env3 = None"
    let ?w2 = "snd (upsertRelation uenv st sv tt tv md w)"
    have "prefix st (cacheKey type limit) \<or> prefix tt (cacheKey type limit)"
      using a prefix_cacheKey by auto
    then have "getCachedData (dateGet env3) (cacheKey type limit) (relationsCache ?w2) = None"
      by (simp only: relationsCache_upsertRelation getCachedData_invalidated_twice)
    then show "getRelations env3 type limit ?w2 =
          (Inr (formatRelations (select_ranked type limit (relations ?w2))),
           ?w2\<lparr>relationsCache :=
                cacheData (datePut env3) (cacheKey type limit)
                  (formatRelations (select_ranked type limit (relations ?w2)))
                  (relationsCache ?w2)\<rparr>)"
      using a by (intro getRelations_miss) simp_all
  qed
qed

lemma sample_first_call:
  "getRelations (sample_get_env 1000) ''ip'' 10 sample_world = (Inr sample_groups, sample_cached_world)"
  by (simp add: getRelations_def cacheKey_ip_10 getCachedData_def sample_world_def
        sample_get_env_def query_def select_ranked_def order_by_last_seen_desc_def
        sample_edge_def partition_value_def formatRelations_def related_of_def
        sample_related_def cacheData_def Let_def sample_groups_def sample_cached_world_def)

theorem getRelations_cached_within_ttl_witness:
  "getRelations (sample_get_env 1000) ''ip'' 10 sample_world = (Inr sample_groups, sample_cached_world)
   \<and> getRelations (sample_get_env 31000) ''ip'' 10 (sample_cached_world\<lparr>relations := []\<rparr>)
       = (Inr sample_groups, sample_cached_world\<lparr>relations := []\<rparr>)
   \<and> fst (getRelations (sample_get_env 31000) ''ip'' 10
            (snd (upsertEach
                    [(sample_upsert_env 0, sample_input ''username'' ''alice'' ''command'' ''ls'')]
                    sample_cached_world)))
       = Inr sample_groups
   \<and> fst (getRelations (sample_get_env 2000) ''ip'' 10
            (snd (upsertRelation (sample_upsert_env 0) ''ip'' ''1.2.3.4'' ''command'' ''id''
                    emptyMetadata sample_cached_world)))
       = Inr [\<lparr>grp_source = ''1.2.3.4'', grp_type = ''ip'',
               grp_related = [(sample_related ''id'' 100 1)\<lparr>rel_firstSeen := 100\<rparr>,
                              sample_related ''whoami'' 9 2, sample_related ''ls'' 5 1]\<rparr>]"
proof -
  let ?calls = "[(sample_upsert_env 0, sample_input ''username'' ''alice'' ''command'' ''ls'')]"
  note inst = getRelations_cached_within_ttl
    [where ?env1.0 = "sample_get_env 1000" and type = "''ip''" and limit = 10
       and ?w0.0 = sample_world and ?d1.0 = sample_groups and ?w1.0 = sample_cached_world
       and st = "''ip''" and sv = "''1.2.3.4''" and tt = "''command''" and tv = "''id''"
       and md = emptyMetadata and uenv = "sample_upsert_env 0" and w = sample_cached_world
       and ?env3.0 = "sample_get_env 2000"]
  have miss: "getCachedData (dateGet (sample_get_env 1000)) (cacheKey ''ip'' 10)
                (relationsCache sample_world) = None"
    by (simp add: getCachedData_def sample_world_def)
  from inst sample_first_call miss obtain t where
    t: "t = datePut (sample_get_env 1000)"
    and hit: "\<forall>env2 w'. map_of (relationsCache w') (cacheKey ''ip'' 10)
                           = map_of (relationsCache sample_cached_world) (cacheKey ''ip'' 10)
                 \<and> dateGet env2 - t < 30000 \<longrightarrow>
               getRelations env2 ''ip'' 10 w' = (Inr sample_groups, w')"
    and kept: "\<forall>env2 calls.
               (\<forall>c \<in> set calls. \<not> prefix (sourceType (snd c)) (cacheKey ''ip'' 10)
                                \<and> \<not> prefix (targetType (snd c)) (cacheKey ''ip'' 10))
               \<and> dateGet env2 - t < 30000 \<longrightarrow>
               getRelations env2 ''ip'' 10 (snd (upsertEach calls sample_cached_world))
                 = (Inr sample_groups, snd (upsertEach calls sample_cached_world))"
    by auto
  have second: "getRelations (sample_get_env 31000) ''ip'' 10 (sample_cached_world\<lparr>relations := []\<rparr>)
       = (Inr sample_groups, sample_cached_world\<lparr>relations := []\<rparr>)"
    using hit t by (simp add: sample_get_env_def)
  have other: "(\<forall>c \<in> set ?calls. \<not> prefix (sourceType (snd c)) (cacheKey ''ip'' 10)
                                \<and> \<not> prefix (targetType (snd c)) (cacheKey ''ip'' 10))
      \<and> dateGet (sample_get_env 31000) - t < 30000"
    using t by (simp add: cacheKey_ip_10 sample_input_def sample_get_env_def)
  have third: "fst (getRelations (sample_get_env 31000) ''ip'' 10
                      (snd (upsertEach ?calls sample_cached_world))) = Inr sample_groups"
    using kept other by (metis fst_conv)
  have ok: "(''ip'' = ''ip'' \<or> ''command'' = ''ip'') \<and> getQueryError (sample_get_env 2000) = None"
    by (simp add: sample_get_env_def)
  from inst ok have "fst (getRelations (sample_get_env 2000) ''ip'' 10
            (snd (upsertRelation (sample_upsert_env 0) ''ip'' ''1.2.3.4'' ''command'' ''id''
                    emptyMetadata sample_cached_world)))
       = Inr (formatRelations (select_ranked ''ip'' 10
                  (relations (snd (upsertRelation (sample_upsert_env 0) ''ip'' ''1.2.3.4''
                     ''command'' ''id'' emptyMetadata sample_cached_world)))))"
    by simp
  also have "formatRelations (select_ranked ''ip'' 10
                  (relations (snd (upsertRelation (sample_upsert_env 0) ''ip'' ''1.2.3.4''
                     ''command'' ''id'' emptyMetadata sample_cached_world))))
      = [\<lparr>grp_source = ''1.2.3.4'', grp_type = ''ip'',
               grp_related = [(sample_related ''id'' 100 1)\<lparr>rel_firstSeen := 100\<rparr>,
                              sample_related ''whoami'' 9 2, sample_related ''ls'' 5 1]\<rparr>]"
    by (simp add: upsertRelation_def sample_cached_world_def sample_world_def sample_upsert_env_def
          query_def upsert_values_def key_of_def sample_edge_def emptyMetadata_def Let_def
          select_ranked_def order_by_last_seen_desc_def partition_value_def formatRelations_def
          related_of_def sample_related_def)
  finally show ?thesis using sample_first_call second third by simp
qed

section \<open>Batch upsert: all or nothing\<close>

lemma insert_on_conflict_returning:
  assumes "\<And>x. key_of (upd x ex) = key_of x"
  shows "\<exists>r. snd (insert_on_conflict upd ex tbl) = [r] \<and> key_of r = key_of ex
           \<and> find_relation (key_of ex) (fst (insert_on_conflict upd ex tbl)) = Some r"
  by (induction tbl) (auto simp: assms find_relation_def split: prod.splits)

lemma upsert_statement_returning:
  "\<exists>tbl' r. insert_on_conflict upsert_set (upsert_values env st sv tt tv md) tbl = (tbl', [r])
     \<and> key_of r = (st, sv, tt, tv) \<and> find_relation (st, sv, tt, tv) tbl' = Some r"
proof -
  obtain r where "snd (insert_on_conflict upsert_set (upsert_values env st sv tt tv md) tbl) = [r]"
    and "key_of r = key_of (upsert_values env st sv tt tv md)"
    and "find_relation (key_of (upsert_values env st sv tt tv md))
           (fst (insert_on_conflict upsert_set (upsert_values env st sv tt tv md) tbl)) = Some r"
    using insert_on_conflict_returning [of upsert_set] key_of_upsert_set by blast
  then show ?thesis
    by (cases "insert_on_conflict upsert_set (upsert_values env st sv tt tv md) tbl")
       (simp add: key_of_upsert_values)
qed

lemma upsertRelation_ok:
  assumes "queryError env = None"
    and "insert_on_conflict upsert_set (upsert_values env st sv tt tv md) (relations w) = (tbl', [r])"
  shows "upsertRelation env st sv tt tv md w
           = (Inr (Some r),
              w\<lparr>relations := tbl',
                relationsCache := invalidateCache tt (invalidateCache st (relationsCache w))\<rparr>)"
  using assms by (simp add: upsertRelation_def query_def Let_def first_row_def)

lemma batch_loop_fail:
  "i < length rels \<Longrightarrow> queryError (env (start + i)) \<noteq> None \<Longrightarrow>
   \<exists>e. batch_loop env start rels types results tbl = Inl e"
proof (induction rels arbitrary: i start types results tbl)
  case Nil
  then show ?case by simp
next
  case (Cons relation rest)
  show ?case
  proof (cases "queryError (env start)")
    case (Some e)
    then show ?thesis by (simp add: query_def Let_def)
  next
    case None
    with Cons.prems obtain j where j: "i = Suc j" by (cases i) auto
    then have "j < length rest" "queryError (env (Suc start + j)) \<noteq> None"
      using Cons.prems by simp_all
    from Cons.IH [OF this] show ?thesis
      using None by (simp add: query_def Let_def split: prod.splits)
  qed
qed

text \<open>
  The calls of \<open>upsertEach\<close> that a batch corresponds to: element \<open>i\<close> with the environment of
  iteration \<open>start + i\<close>.
\<close>

lemma zip_env_Cons:
  "zip (map env [start..<start + length (relation # rest)]) (relation # rest)
     = (env start, relation) # zip (map env [Suc start..<Suc start + length rest]) rest"
  by (simp add: upt_conv_Cons del: upt_Suc)

lemma batch_loop_ok:
  "\<forall>i<length rels. queryError (env (start + i)) = None \<Longrightarrow>
   \<exists>types' res. batch_loop env start rels types results (relations w)
        = Inr (types', results @ res,
               relations (snd (upsertEach (zip (map env [start..<start + length rels]) rels) w)))
      \<and> map (\<lambda>r. Inr (Some r)) res
          = fst (upsertEach (zip (map env [start..<start + length rels]) rels) w)
      \<and> set types' = set types \<union> sourceType ` set rels \<union> targetType ` set rels
      \<and> length res = length rels
      \<and> (\<forall>i<length rels. key_of (res ! i) = input_key (rels ! i))"
proof (induction rels arbitrary: start types results w)
  case Nil
  then show ?case by simp
next
  case (Cons relation rest)
  let ?types = "set_add (targetType relation) (set_add (sourceType relation) types)"
  let ?ex = "upsert_values (env start) (sourceType relation) (sourceValue relation)
           (targetType relation) (targetValue relation) (inputMetadata relation)"
  have ok: "queryError (env start) = None" using Cons.prems by force
  obtain tbl1 r where st: "insert_on_conflict upsert_set ?ex (relations w) = (tbl1, [r])"
    and kr: "key_of r = input_key relation"
    using upsert_statement_returning unfolding input_key_def by blast
  let ?w1 = "w\<lparr>relations := tbl1,
                relationsCache := invalidateCache (targetType relation)
                  (invalidateCache (sourceType relation) (relationsCache w))\<rparr>"
  have single: "upsertRelation (env start) (sourceType relation) (sourceValue relation)
           (targetType relation) (targetValue relation) (inputMetadata relation) w
         = (Inr (Some r), ?w1)"
    using ok st by (rule upsertRelation_ok)
  have tbl1: "relations ?w1 = tbl1" by simp
  have rest_ok: "\<forall>i<length rest. queryError (env (Suc start + i)) = None"
    using Cons.prems by force
  let ?calls = "zip (map env [Suc start..<Suc start + length rest]) rest"
  from Cons.IH [OF rest_ok, of ?types "results @ [r]" ?w1] obtain types' res where
    run: "batch_loop env (Suc start) rest ?types (results @ [r]) tbl1
            = Inr (types', (results @ [r]) @ res, relations (snd (upsertEach ?calls ?w1)))"
    and rows: "map (\<lambda>r. Inr (Some r)) res = fst (upsertEach ?calls ?w1)"
    and types: "set types' = set ?types \<union> sourceType ` set rest \<union> targetType ` set rest"
    and len: "length res = length rest"
    and keys: "\<forall>i<length rest. key_of (res ! i) = input_key (rest ! i)"
    unfolding tbl1 by blast
  have each: "upsertEach (zip (map env [start..<start + length (relation # rest)]) (relation # rest)) w
      = (Inr (Some r) # fst (upsertEach ?calls ?w1), snd (upsertEach ?calls ?w1))"
    unfolding zip_env_Cons by (simp add: single split: prod.splits)
  have "batch_loop env start (relation # rest) types results (relations w)
          = Inr (types', results @ (r # res),
                 relations (snd (upsertEach
                   (zip (map env [start..<start + length (relation # rest)]) (relation # rest)) w)))"
    unfolding each using ok st run by (simp add: query_def Let_def)
  moreover have "map (\<lambda>r. Inr (Some r)) (r # res)
      = fst (upsertEach (zip (map env [start..<start + length (relation # rest)]) (relation # rest)) w)"
    unfolding each using rows by simp
  moreover have "set types' = set types \<union> sourceType ` set (relation # rest)
      \<union> targetType ` set (relation # rest)"
    using types by (auto simp: set_add_def)
  moreover have "length (r # res) = length (relation # rest)" using len by simp
  moreover have "\<forall>i<length (relation # rest). key_of ((r # res) ! i) = input_key ((relation # rest) ! i)"
    using kr keys by (auto simp: nth_Cons split: nat.splits)
  ultimately show ?case by blast
qed

lemma fold_invalidateCache:
  "fold invalidateCache ts c = filter (\<lambda>(key, item). \<forall>t \<in> set ts. \<not> prefix t key) c"
proof (induction ts arbitrary: c)
  case Nil
  then show ?case by simp
next
  case (Cons t ts)
  have "filter (\<lambda>(key, item). \<forall>t \<in> set ts. \<not> prefix t key) (invalidateCache t c)
      = filter (\<lambda>(key, item). \<forall>t \<in> set (t # ts). \<not> prefix t key) c"
    unfolding invalidateCache_def filter_filter
    by (rule filter_cong) auto
  then show ?case using Cons.IH by simp
qed

lemma relationsCache_upsertEach:
  "relationsCache (snd (upsertEach calls w))
     = filter (\<lambda>(key, item). \<forall>t \<in> sourceType ` snd ` set calls \<union> targetType ` snd ` set calls.
                                \<not> prefix t key)
         (relationsCache w)"
proof (induction calls arbitrary: w)
  case Nil
  then show ?case by simp
next
  case (Cons c rest)
  let ?w1 = "snd (upsertRelation (fst c) (sourceType (snd c)) (sourceValue (snd c))
                     (targetType (snd c)) (targetValue (snd c)) (inputMetadata (snd c)) w)"
  have "relationsCache (snd (upsertEach (c # rest) w)) = relationsCache (snd (upsertEach rest ?w1))"
    by (simp add: upsertEach_Cons del: upsertEach.simps(2))
  also have "\<dots> = filter (\<lambda>(key, item). \<forall>t \<in> sourceType ` snd ` set rest \<union> targetType ` snd ` set rest.
                                \<not> prefix t key)
         (invalidateCache (targetType (snd c)) (invalidateCache (sourceType (snd c)) (relationsCache w)))"
    by (simp only: Cons.IH relationsCache_upsertRelation)
  also have "\<dots> = filter (\<lambda>(key, item). \<forall>t \<in> sourceType ` snd ` set (c # rest)
                                            \<union> targetType ` snd ` set (c # rest).
                                \<not> prefix t key)
         (relationsCache w)"
    unfolding invalidateCache_def filter_filter
    by (rule filter_cong) auto
  finally show ?case .
qed

lemma snd_set_zip_env:
  "snd ` set (zip (map env [0..<length rels]) rels) = set rels"
proof -
  have m: "map snd (zip (map env [0..<length rels]) rels) = rels"
    by (simp add: map_snd_zip)
  show ?thesis
    using arg_cong [OF m, of set] by (simp only: set_map)
qed

lemma find_relation_after_upsert_kept:
  "find_relation k tbl \<noteq> None \<Longrightarrow>
   find_relation k (fst (insert_on_conflict upsert_set ex tbl)) \<noteq> None"
proof (cases "key_of ex = k")
  case True
  assume "find_relation k tbl \<noteq> None"
  then obtain r where "find_relation (key_of ex) tbl = Some r" using True by auto
  then have "find_relation (key_of ex) (fst (insert_on_conflict upsert_set ex tbl))
               = Some (upsert_set r ex)"
    by (intro find_relation_insert_present) (simp_all add: key_of_upsert_set find_relation_key)
  then show ?thesis using True by simp
next
  case False
  assume "find_relation k tbl \<noteq> None"
  moreover have "find_relation k (fst (insert_on_conflict upsert_set ex tbl)) = find_relation k tbl"
    using False by (induction tbl) (auto simp: find_relation_def key_of_upsert_set split: prod.splits)
  ultimately show ?thesis by simp
qed

lemma upsertRelation_keeps_keys:
  "find_relation k (relations w) \<noteq> None \<Longrightarrow>
   find_relation k (relations (snd (upsertRelation env st sv tt tv md w))) \<noteq> None"
  by (cases "queryError env")
     (simp_all add: relations_upsertRelation_ok relations_upsertRelation_fail
        find_relation_after_upsert_kept)

lemma upsertEach_keeps_keys:
  "find_relation k (relations w) \<noteq> None \<Longrightarrow>
   find_relation k (relations (snd (upsertEach calls w))) \<noteq> None"
proof (induction calls arbitrary: w)
  case Nil
  then show ?case by simp
next
  case (Cons c rest)
  let ?w1 = "snd (upsertRelation (fst c) (sourceType (snd c)) (sourceValue (snd c))
                     (targetType (snd c)) (targetValue (snd c)) (inputMetadata (snd c)) w)"
  have "find_relation k (relations ?w1) \<noteq> None"
    using Cons.prems by (rule upsertRelation_keeps_keys)
  then have "find_relation k (relations (snd (upsertEach rest ?w1))) \<noteq> None"
    by (rule Cons.IH)
  then show ?case
    unfolding upsertEach_Cons snd_conv .
qed

lemma upsertRelation_row:
  assumes "queryError env = None"
  shows "\<exists>r. fst (upsertRelation env st sv tt tv md w) = Inr (Some r)
           \<and> find_relation (st, sv, tt, tv) (relations (snd (upsertRelation env st sv tt tv md w)))
               = Some r"
proof -
  obtain tbl' r where st: "insert_on_conflict upsert_set (upsert_values env st sv tt tv md) (relations w)
                             = (tbl', [r])"
    and f: "find_relation (st, sv, tt, tv) tbl' = Some r"
    using upsert_statement_returning by blast
  from upsertRelation_ok [OF assms st] f show ?thesis by simp
qed

text \<open>
  With every statement succeeding, call \<open>i\<close> of \<open>upsertEach\<close> returns the row that its key has
  in the table once the first \<open>i + 1\<close> calls are made.
\<close>

lemma upsertEach_rows:
  "\<forall>c \<in> set calls. queryError (fst c) = None \<Longrightarrow> i < length calls \<Longrightarrow>
   \<exists>r. fst (upsertEach calls w) ! i = Inr (Some r)
      \<and> find_relation (input_key (snd (calls ! i)))
           (relations (snd (upsertEach (take (Suc i) calls) w))) = Some r"
proof (induction calls arbitrary: i w)
  case Nil
  then show ?case by simp
next
  case (Cons c rest)
  let ?w1 = "snd (upsertRelation (fst c) (sourceType (snd c)) (sourceValue (snd c))
                     (targetType (snd c)) (targetValue (snd c)) (inputMetadata (snd c)) w)"
  show ?case
  proof (cases i)
    case 0
    have "queryError (fst c) = None" using Cons.prems(1) by simp
    from upsertRelation_row
      [where st = "sourceType (snd c)" and sv = "sourceValue (snd c)"
         and tt = "targetType (snd c)" and tv = "targetValue (snd c)"
         and md = "inputMetadata (snd c)" and w = w, OF this]
    show ?thesis
      unfolding 0 by (simp add: upsertEach_Cons input_key_def del: upsertEach.simps(2))
  next
    case (Suc j)
    then have "j < length rest" "\<forall>c \<in> set rest. queryError (fst c) = None"
      using Cons.prems by simp_all
    from Cons.IH [OF this(2,1), of ?w1] show ?thesis
      unfolding Suc by (simp add: upsertEach_Cons del: upsertEach.simps(2))
  qed
qed

lemma upsertEach_visible:
  "\<forall>c \<in> set calls. queryError (fst c) = None \<Longrightarrow> i < length calls \<Longrightarrow>
   find_relation (input_key (snd (calls ! i))) (relations (snd (upsertEach calls w))) \<noteq> None"
proof (induction calls arbitrary: i w)
  case Nil
  then show ?case by simp
next
  case (Cons c rest)
  let ?w1 = "snd (upsertRelation (fst c) (sourceType (snd c)) (sourceValue (snd c))
                     (targetType (snd c)) (targetValue (snd c)) (inputMetadata (snd c)) w)"
  show ?case
  proof (cases i)
    case 0
    have "queryError (fst c) = None" using Cons.prems(1) by simp
    from upsertRelation_row
      [where st = "sourceType (snd c)" and sv = "sourceValue (snd c)"
         and tt = "targetType (snd c)" and tv = "targetValue (snd c)"
         and md = "inputMetadata (snd c)" and w = w, OF this]
    have "find_relation (input_key (snd c)) (relations ?w1) \<noteq> None"
      unfolding input_key_def by auto
    then have "find_relation (input_key (snd c)) (relations (snd (upsertEach rest ?w1))) \<noteq> None"
      by (rule upsertEach_keeps_keys)
    then show ?thesis
      unfolding 0 by (simp add: upsertEach_Cons del: upsertEach.simps(2))
  next
    case (Suc j)
    then have "j < length rest" "\<forall>c \<in> set rest. queryError (fst c) = None"
      using Cons.prems by simp_all
    from Cons.IH [OF this(2,1), of ?w1] show ?thesis
      unfolding Suc by (simp add: upsertEach_Cons del: upsertEach.simps(2))
  qed
qed

text \<open>
  Claim C2. If the statement of any row of a non-empty batch throws, \<^verbatim>\<open>batchUpsertRelations\<close>
  fails and table and cache are what they were. If the client is obtained and no statement
  throws, it returns one row per element of the batch, and the batch is committed: the world
  left is the one that one \<^verbatim>\<open>upsertRelation\<close> call per element, in order, leaves; the rows
  returned are the rows those calls return, each the row its key has in the table once its
  statement has run; and the key of every element has a row in the table left.
\<close>

theorem batchUpsertRelations_all_or_nothing:
  assumes "rels \<noteq> []"
  shows "((\<exists>i<length rels. queryError (env i) \<noteq> None) \<longrightarrow>
            (\<exists>e. batchUpsertRelations connectError env (Some rels) w = (Inl e, w)))
       \<and> (connectError = None \<and> (\<forall>i<length rels. queryError (env i) = None) \<longrightarrow>
            (\<exists>results w'. batchUpsertRelations connectError env (Some rels) w = (Inr results, w')
               \<and> length results = length rels
               \<and> (\<forall>i<length rels. key_of (results ! i) = input_key (rels ! i))
               \<and> w' = snd (upsertEach (zip (map env [0..<length rels]) rels) w)
               \<and> map (\<lambda>r. Inr (Some r)) results
                   = fst (upsertEach (zip (map env [0..<length rels]) rels) w)
               \<and> (\<forall>i<length rels.
                     find_relation (input_key (rels ! i))
                       (relations (snd (upsertEach
                          (take (Suc i) (zip (map env [0..<length rels]) rels)) w)))
                     = Some (results ! i))
               \<and> (\<forall>i<length rels.
                     find_relation (input_key (rels ! i)) (relations w') \<noteq> None)))"
    (is "?rollback \<and> ?commit")
proof
  show ?rollback
  proof
    assume "\<exists>i<length rels. queryError (env i) \<noteq> None"
    then obtain i where i: "i < length rels" "queryError (env i) \<noteq> None" by auto
    obtain e where "batch_loop env 0 rels [] [] (relations w) = Inl e"
      using batch_loop_fail [of i rels env 0 "[]" "[]" "relations w"] i by auto
    then show "\<exists>e. batchUpsertRelations connectError env (Some rels) w = (Inl e, w)"
      using assms by (cases connectError) (simp_all add: batchUpsertRelations_def)
  qed
next
  show ?commit
  proof
    assume a: "connectError = None \<and> (\<forall>i<length rels. queryError (env i) = None)"
    let ?calls = "zip (map env [0..<length rels]) rels"
    let ?u = "snd (upsertEach ?calls w)"
    have "\<forall>i<length rels. queryError (env (0 + i)) = None" using a by simp
    from batch_loop_ok
      [where rels = rels and env = env and start = 0 and w = w and types = "[]"
         and results = "[]", OF this]
    obtain types' res where
      run: "batch_loop env 0 rels [] [] (relations w) = Inr (types', res, relations ?u)"
      and rows: "map (\<lambda>r. Inr (Some r)) res = fst (upsertEach ?calls w)"
      and types: "set types' = sourceType ` set rels \<union> targetType ` set rels"
      and len: "length res = length rels"
      and keys: "\<forall>i<length rels. key_of (res ! i) = input_key (rels ! i)" by auto
    have result: "batchUpsertRelations connectError env (Some rels) w
        = (Inr res, w\<lparr>relations := relations ?u,
                      relationsCache := fold invalidateCache types' (relationsCache w)\<rparr>)"
      using assms a run by (simp add: batchUpsertRelations_def)
    have "fold invalidateCache types' (relationsCache w) = relationsCache ?u"
      unfolding fold_invalidateCache relationsCache_upsertEach snd_set_zip_env types ..
    then have world: "w\<lparr>relations := relations ?u,
                      relationsCache := fold invalidateCache types' (relationsCache w)\<rparr> = ?u"
      by simp
    have lc: "length ?calls = length rels" by simp
    have call_ok: "\<forall>c \<in> set ?calls. queryError (fst c) = None"
      using a by (auto simp: set_zip)
    have call_key: "input_key (snd (?calls ! i)) = input_key (rels ! i)" if "i < length rels" for i
      using that by simp
    have each: "find_relation (input_key (rels ! i))
                  (relations (snd (upsertEach (take (Suc i) ?calls) w))) = Some (res ! i)"
      if "i < length rels" for i
    proof -
      from upsertEach_rows [OF call_ok, of i w] that lc obtain r where
        r: "fst (upsertEach ?calls w) ! i = Inr (Some r)"
        and f: "find_relation (input_key (snd (?calls ! i)))
                  (relations (snd (upsertEach (take (Suc i) ?calls) w))) = Some r" by auto
      have "fst (upsertEach ?calls w) ! i = Inr (Some (res ! i))"
        using that len rows [symmetric] by simp
      with r have "r = res ! i" by simp
      with f call_key [OF that] show ?thesis by simp
    qed
    have visible: "find_relation (input_key (rels ! i)) (relations ?u) \<noteq> None"
      if "i < length rels" for i
      using upsertEach_visible [OF call_ok, of i w] that lc call_key [OF that] by simp
    show "\<exists>results w'. batchUpsertRelations connectError env (Some rels) w = (Inr results, w')
               \<and> length results = length rels
               \<and> (\<forall>i<length rels. key_of (results ! i) = input_key (rels ! i))
               \<and> w' = snd (upsertEach (zip (map env [0..<length rels]) rels) w)
               \<and> map (\<lambda>r. Inr (Some r)) results
                   = fst (upsertEach (zip (map env [0..<length rels]) rels) w)
               \<and> (\<forall>i<length rels.
                     find_relation (input_key (rels ! i))
                       (relations (snd (upsertEach
                          (take (Suc i) (zip (map env [0..<length rels]) rels)) w)))
                     = Some (results ! i))
               \<and> (\<forall>i<length rels.
                     find_relation (input_key (rels ! i)) (relations w') \<noteq> None)"
      using result world len keys rows each visible by (intro exI [of _ res] exI [of _ ?u]) simp
  qed
qed

theorem batchUpsertRelations_all_or_nothing_witness:
  "[sample_input ''ip'' ''1.2.3.4'' ''command'' ''ls'',
    sample_input ''ip'' ''1.2.3.4'' ''command'' ''whoami''] \<noteq> []
   \<and> batchUpsertRelations None failing_upsert_env
        (Some [sample_input ''ip'' ''1.2.3.4'' ''command'' ''ls'',
               sample_input ''ip'' ''1.2.3.4'' ''command'' ''whoami''])
        sample_cached_world
      = (Inl (Error ''deadlock''), sample_cached_world)
   \<and> batchUpsertRelations None sample_upsert_env
        (Some [sample_input ''ip'' ''1.2.3.4'' ''command'' ''ls'',
               sample_input ''ip'' ''1.2.3.4'' ''command'' ''whoami''])
        \<lparr>relations = [], relationsCache = relationsCache sample_cached_world\<rparr>
      = (Inr [sample_edge ''ip'' ''1.2.3.4'' ''command'' ''ls'' 100 1\<lparr>first_seen := 100\<rparr>,
              sample_edge ''ip'' ''1.2.3.4'' ''command'' ''whoami'' 101 1\<lparr>first_seen := 101\<rparr>],
         \<lparr>relations =
            [sample_edge ''ip'' ''1.2.3.4'' ''command'' ''ls'' 100 1\<lparr>first_seen := 100\<rparr>,
             sample_edge ''ip'' ''1.2.3.4'' ''command'' ''whoami'' 101 1\<lparr>first_seen := 101\<rparr>],
          relationsCache = []\<rparr>)"
proof -
  let ?rels = "[sample_input ''ip'' ''1.2.3.4'' ''command'' ''ls'',
    sample_input ''ip'' ''1.2.3.4'' ''command'' ''whoami'']"
  let ?w = "\<lparr>relations = [], relationsCache = relationsCache sample_cached_world\<rparr>"
  have ne: "?rels \<noteq> []" by simp
  have bad: "\<exists>i<length ?rels. queryError (failing_upsert_env i) \<noteq> None"
    by (rule exI [of _ 1]) (simp add: failing_upsert_env_def)
  have good: "None = (None :: error option)
      \<and> (\<forall>i<length ?rels. queryError (sample_upsert_env i) = None)"
    by (simp add: sample_upsert_env_def)
  from batchUpsertRelations_all_or_nothing [OF ne, of failing_upsert_env None sample_cached_world] bad
  obtain e where
    fails: "batchUpsertRelations None failing_upsert_env (Some ?rels) sample_cached_world
              = (Inl e, sample_cached_world)"
    by blast
  have "fst (batchUpsertRelations None failing_upsert_env (Some ?rels) sample_cached_world)
          = Inl (Error ''deadlock'')"
    by (simp add: batchUpsertRelations_def failing_upsert_env_def sample_input_def query_def
          upsert_values_def key_of_def Let_def set_add_def emptyMetadata_def)
  with fails have e: "e = Error ''deadlock''" by simp
  have calls: "zip (map sample_upsert_env [0..<length ?rels]) ?rels
      = [(sample_upsert_env 0, sample_input ''ip'' ''1.2.3.4'' ''command'' ''ls''),
         (sample_upsert_env 1, sample_input ''ip'' ''1.2.3.4'' ''command'' ''whoami'')]"
    by (simp add: upt_conv_Cons)
  from batchUpsertRelations_all_or_nothing [OF ne, of sample_upsert_env None ?w] good
  obtain results w' where
    run: "batchUpsertRelations None sample_upsert_env (Some ?rels) ?w = (Inr results, w')"
    and world: "w' = snd (upsertEach (zip (map sample_upsert_env [0..<length ?rels]) ?rels) ?w)"
    and rows: "map (\<lambda>r. Inr (Some r)) results
                 = fst (upsertEach (zip (map sample_upsert_env [0..<length ?rels]) ?rels) ?w)"
    by blast
  have each: "upsertEach (zip (map sample_upsert_env [0..<length ?rels]) ?rels) ?w
      = ([Inr (Some (sample_edge ''ip'' ''1.2.3.4'' ''command'' ''ls'' 100 1\<lparr>first_seen := 100\<rparr>)),
          Inr (Some (sample_edge ''ip'' ''1.2.3.4'' ''command'' ''whoami'' 101 1\<lparr>first_seen := 101\<rparr>))],
         \<lparr>relations =
            [sample_edge ''ip'' ''1.2.3.4'' ''command'' ''ls'' 100 1\<lparr>first_seen := 100\<rparr>,
             sample_edge ''ip'' ''1.2.3.4'' ''command'' ''whoami'' 101 1\<lparr>first_seen := 101\<rparr>],
          relationsCache = []\<rparr>)"
    unfolding calls
    by (simp add: upsertRelation_def sample_upsert_env_def sample_input_def query_def
          upsert_values_def key_of_def Let_def emptyMetadata_def first_row_def sample_edge_def
          invalidateCache_def sample_cached_world_def sample_world_def)
  have "results = [sample_edge ''ip'' ''1.2.3.4'' ''command'' ''ls'' 100 1\<lparr>first_seen := 100\<rparr>,
              sample_edge ''ip'' ''1.2.3.4'' ''command'' ''whoami'' 101 1\<lparr>first_seen := 101\<rparr>]"
    using rows unfolding each by (auto simp: map_eq_Cons_conv)
  then show ?thesis
    using ne fails e run world unfolding each by simp
qed

section \<open>checkLogFile\<close>

lemma checkLogFile_try_access_fails:
  "map_of (files h) (path_join node (dataDir m) fileName) = None
     \<or> accessError env \<noteq> None \<or> readError env \<noteq> None \<Longrightarrow>
   \<exists>e. checkLogFile_try node env m fileName h = (Inl e, h)"
  by (auto simp: checkLogFile_try_def fs_access_def fs_readFile_def Let_def
           split: option.splits)

lemma checkLogFile_try_true:
  "checkLogFile_try node env m fileName h = (Inr True, h') \<Longrightarrow>
   \<exists>content. map_of (files h) (path_join node (dataDir m) fileName) = Some content
      \<and> accessError env = None \<and> readError env = None
      \<and> (case JSON_parse node (utf8_decode node content) of
            Inl parseError \<Rightarrow> writeError env = None \<and> eventError env = None
          | Inr logs \<Rightarrow> \<not> isArray logs \<or> maxLogsPerFile m \<le> array_length logs)"
  by (auto simp: checkLogFile_try_def fs_access_def fs_readFile_def fs_writeFile_def
                 logSystemEvent_def Let_def
           split: option.splits sum.splits if_splits)

lemma checkLogFile_parsed:
  assumes "map_of (files h) (path_join node (dataDir m) fileName) = Some content"
    and "accessError env = None" and "readError env = None"
    and "JSON_parse node (utf8_decode node content) = Inr logs"
  shows "checkLogFile node env m fileName h
           = (Inr (\<not> isArray logs \<or> maxLogsPerFile m \<le> array_length logs), h)"
  using assms
  by (simp add: checkLogFile_def checkLogFile_try_def fs_access_def fs_readFile_def Let_def)

lemma sample_decode_ascii:
  "utf8_decode sample_platform ''{oops'' = [123, 111, 111, 112, 115]"
  "utf8_decode sample_platform ''[1,2]'' = [91, 49, 44, 50, 93]"
  "utf8_decode sample_platform [CHR ''{'', CHR 0xFF] = [123, 65533]"
  by (simp_all add: sample_platform_def)

lemma sample_parse:
  "JSON_parse sample_platform [123, 111, 111, 112, 115] = Inl ''Unexpected token''"
  "JSON_parse sample_platform [91, 49, 44, 50, 93] = Inr (JArray [JNumber 1, JNumber 2])"
  "JSON_parse sample_platform [123, 65533] = Inl ''Unexpected token''"
  by (simp_all add: sample_platform_def)



lemma sample_paths:
  "path_join sample_platform (dataDir sample_manager) ''audit_logs.json'' = ''data/audit_logs.json''"
  "path_join sample_platform (dataDir sample_manager) ''data_logs.json'' = ''data/data_logs.json''"
  "path_join sample_platform (dataDir sample_manager) ''security_logs.json''
     = ''data/security_logs.json''"
  "path_join sample_platform (dataDir sample_manager) ''system_logs.json''
     = ''data/system_logs.json''"
  by (simp_all add: sample_platform_def sample_manager_def)

lemma sample_files:
  "map_of (files sample_host) ''data/audit_logs.json'' = Some ''{oops''"
  "map_of (files sample_host) ''data/data_logs.json'' = Some ''[1,2]''"
  "map_of (files sample_host) ''data/security_logs.json'' = Some [CHR ''{'', CHR 0xFF]"
  "map_of (files sample_host) ''data/system_logs.json'' = None"
  by (simp_all add: sample_host_def)


text \<open>
  Claim C10, as stated, fails in its last clause: a file that exists, is read and parses to a
  list of two entries, with \<open>maxLogsPerFile = 2\<close>, makes \<^verbatim>\<open>checkLogFile\<close> return \<^verbatim>\<open>true\<close>, and
  nothing about it is a parse-level problem.
\<close>

theorem checkLogFile_full_list_needs_rotation:
  "map_of (files sample_host) (path_join sample_platform (dataDir sample_manager) ''data_logs.json'')
     = Some ''[1,2]''
   \<and> JSON_parse sample_platform (utf8_decode sample_platform ''[1,2]'')
       = Inr (JArray [JNumber 1, JNumber 2])
   \<and> isArray (JArray [JNumber 1, JNumber 2])
   \<and> maxLogsPerFile sample_manager = 2
   \<and> checkLogFile sample_platform (sample_check_env None) sample_manager ''data_logs.json''
        sample_host = (Inr True, sample_host)"
proof -
  have f: "map_of (files sample_host)
             (path_join sample_platform (dataDir sample_manager) ''data_logs.json'') = Some ''[1,2]''"
    by (simp add: sample_paths sample_files)
  have p: "JSON_parse sample_platform (utf8_decode sample_platform ''[1,2]'')
             = Inr (JArray [JNumber 1, JNumber 2])"
    by (simp add: sample_decode_ascii sample_parse)
  have e: "accessError (sample_check_env None) = None" "readError (sample_check_env None) = None"
    by (simp_all add: sample_check_env_def)
  have "checkLogFile sample_platform (sample_check_env None) sample_manager ''data_logs.json''
          sample_host = (Inr True, sample_host)"
    using checkLogFile_parsed [OF f e p]
    by (simp add: isArray_def array_length_def sample_manager_def)
  then show ?thesis
    using f p by (simp add: isArray_def sample_manager_def)
qed

text \<open>
  Claim C10, amended. \<^verbatim>\<open>checkLogFile\<close> always returns a boolean; for a file that is missing,
  or that \<^verbatim>\<open>fs.access\<close> or \<^verbatim>\<open>fs.readFile\<close> rejects, it returns \<^verbatim>\<open>false\<close> and changes nothing;
  it returns \<^verbatim>\<open>true\<close> only for a file that exists and was read, and whose content fails to
  parse, parses to something that is not a list, or parses to a list that has reached
  \<open>maxLogsPerFile\<close>; and a readable file whose content parses returns \<^verbatim>\<open>true\<close> exactly in the
  last two cases.
\<close>

theorem checkLogFile_never_throws:
  "(\<exists>needsRotation h'. checkLogFile node env m fileName h = (Inr needsRotation, h'))
   \<and> (map_of (files h) (path_join node (dataDir m) fileName) = None
        \<or> accessError env \<noteq> None \<or> readError env \<noteq> None \<longrightarrow>
      checkLogFile node env m fileName h = (Inr False, h))
   \<and> (fst (checkLogFile node env m fileName h) = Inr True \<longrightarrow>
        (\<exists>content. map_of (files h) (path_join node (dataDir m) fileName) = Some content
           \<and> accessError env = None \<and> readError env = None
           \<and> (case JSON_parse node (utf8_decode node content) of
                 Inl parseError \<Rightarrow> writeError env = None \<and> eventError env = None
               | Inr logs \<Rightarrow> \<not> isArray logs \<or> maxLogsPerFile m \<le> array_length logs)))
   \<and> (\<forall>content logs.
         map_of (files h) (path_join node (dataDir m) fileName) = Some content
         \<and> accessError env = None \<and> readError env = None
         \<and> JSON_parse node (utf8_decode node content) = Inr logs \<longrightarrow>
         checkLogFile node env m fileName h
           = (Inr (\<not> isArray logs \<or> maxLogsPerFile m \<le> array_length logs), h))"
    (is "?returns \<and> ?unreadable \<and> ?only_content \<and> ?parsed")
proof (intro conjI)
  show ?returns
    by (cases "checkLogFile_try node env m fileName h")
       (auto simp: checkLogFile_def split: sum.splits)
  show ?unreadable
  proof
    assume "map_of (files h) (path_join node (dataDir m) fileName) = None
        \<or> accessError env \<noteq> None \<or> readError env \<noteq> None"
    from checkLogFile_try_access_fails [OF this] show "checkLogFile node env m fileName h = (Inr False, h)"
      by (auto simp: checkLogFile_def)
  qed
  show ?only_content
  proof
    assume t: "fst (checkLogFile node env m fileName h) = Inr True"
    obtain res h' where r: "checkLogFile_try node env m fileName h = (res, h')"
      by (cases "checkLogFile_try node env m fileName h")
    with t have "res = Inr True"
      by (cases res) (auto simp: checkLogFile_def)
    with r show "\<exists>content. map_of (files h) (path_join node (dataDir m) fileName) = Some content
           \<and> accessError env = None \<and> readError env = None
           \<and> (case JSON_parse node (utf8_decode node content) of
                 Inl parseError \<Rightarrow> writeError env = None \<and> eventError env = None
               | Inr logs \<Rightarrow> \<not> isArray logs \<or> maxLogsPerFile m \<le> array_length logs)"
      by (intro checkLogFile_try_true) simp
  qed
  show ?parsed
    using checkLogFile_parsed [of h node m fileName _ env] by blast
qed

theorem checkLogFile_never_throws_witness:
  "checkLogFile sample_platform
      \<lparr>accessError = None, readError = Some (Error ''EACCES''), writeError = None,
       eventError = None, dateNow = 1700, dateEvent = 1701\<rparr>
      sample_manager ''audit_logs.json'' sample_host = (Inr False, sample_host)
   \<and> checkLogFile sample_platform (sample_check_env None) sample_manager ''system_logs.json''
        sample_host = (Inr False, sample_host)
   \<and> checkLogFile sample_platform (sample_check_env None) sample_manager ''data_logs.json''
        sample_host = (Inr True, sample_host)"
proof -
  let ?denied = "\<lparr>accessError = None, readError = Some (Error ''EACCES''), writeError = None,
       eventError = None, dateNow = 1700, dateEvent = 1701\<rparr>"
  have "readError ?denied \<noteq> None" by simp
  with checkLogFile_never_throws [of sample_platform ?denied sample_manager "''audit_logs.json''" sample_host]
  have denied: "checkLogFile sample_platform ?denied sample_manager ''audit_logs.json'' sample_host
      = (Inr False, sample_host)"
    by blast
  have "map_of (files sample_host)
          (path_join sample_platform (dataDir sample_manager) ''system_logs.json'') = None"
    by (simp add: sample_paths sample_files)
  with checkLogFile_never_throws [of sample_platform "sample_check_env None" sample_manager
      "''system_logs.json''" sample_host]
  have missing: "checkLogFile sample_platform (sample_check_env None) sample_manager
      ''system_logs.json'' sample_host = (Inr False, sample_host)"
    by blast
  have "map_of (files sample_host)
          (path_join sample_platform (dataDir sample_manager) ''data_logs.json'') = Some ''[1,2]''
      \<and> accessError (sample_check_env None) = None \<and> readError (sample_check_env None) = None
      \<and> JSON_parse sample_platform (utf8_decode sample_platform ''[1,2]'')
          = Inr (JArray [JNumber 1, JNumber 2])"
    by (simp add: sample_paths sample_files sample_check_env_def sample_decode_ascii sample_parse)
  with checkLogFile_never_throws [of sample_platform "sample_check_env None" sample_manager
      "''data_logs.json''" sample_host]
  have "checkLogFile sample_platform (sample_check_env None) sample_manager ''data_logs.json''
      sample_host
      = (Inr (\<not> isArray (JArray [JNumber 1, JNumber 2])
              \<or> maxLogsPerFile sample_manager \<le> array_length (JArray [JNumber 1, JNumber 2])),
         sample_host)"
    by blast
  then have full: "checkLogFile sample_platform (sample_check_env None) sample_manager
      ''data_logs.json'' sample_host = (Inr True, sample_host)"
    by (simp add: isArray_def array_length_def sample_manager_def)
  show ?thesis using denied missing full by simp
qed




section \<open>Rename: collisions with surviving rows\<close>

lemma key_of_rename_set: "key_of (rename_set r ex) = key_of r"
  by (simp add: key_of_def rename_set_def)

lemma key_of_renamed_source:
  "key_of (renamed_source new t r) = (source_type r, new, target_type r, target_value r)"
  by (simp add: key_of_def renamed_source_def)

lemma key_of_renamed_target:
  "key_of (renamed_target new t r) = (source_type r, source_value r, target_type r, new)"
  by (simp add: key_of_def renamed_target_def)

lemma find_relation_insert_other:
  assumes "key_of ex \<noteq> k" and "\<And>x. key_of (upd x ex) = key_of x"
  shows "find_relation k (fst (insert_on_conflict upd ex tbl)) = find_relation k tbl"
  using assms by (induction tbl) (auto simp: find_relation_def split: prod.splits)

lemma find_relation_distinct:
  "distinct (map key_of tbl) \<Longrightarrow> s \<in> set tbl \<Longrightarrow> find_relation (key_of s) tbl = Some s"
  by (induction tbl) (auto simp: find_relation_def)

lemma reinsert_loop_misses:
  "\<forall>i. insertError (env i) = None \<Longrightarrow>
   \<forall>r \<in> set rows. \<forall>t. key_of (rename t r) \<noteq> k \<Longrightarrow>
   \<exists>tbl'. reinsert_loop rename env i rows tbl = Inr tbl'
      \<and> find_relation k tbl' = find_relation k tbl"
proof (induction rows arbitrary: i tbl)
  case Nil
  then show ?case by simp
next
  case (Cons r rows)
  let ?ex = "rename (insertDate (env i)) r"
  let ?tbl = "fst (insert_on_conflict rename_set ?ex tbl)"
  have "key_of ?ex \<noteq> k" using Cons.prems(2) by simp
  then have step: "find_relation k ?tbl = find_relation k tbl"
    by (rule find_relation_insert_other) (rule key_of_rename_set)
  have "\<forall>r \<in> set rows. \<forall>t. key_of (rename t r) \<noteq> k" using Cons.prems(2) by simp
  from Cons.IH [OF Cons.prems(1) this, of "Suc i" ?tbl] obtain tbl' where
    "reinsert_loop rename env (Suc i) rows ?tbl = Inr tbl'"
    "find_relation k tbl' = find_relation k ?tbl" by blast
  then show ?case
    using Cons.prems(1) step
    by (cases "insert_on_conflict rename_set ?ex tbl") (simp add: query_def)
qed

lemma reinsert_loop_hits:
  "\<forall>i. insertError (env i) = None \<Longrightarrow>
   \<forall>r \<in> set pre \<union> set post. \<forall>t. key_of (rename t r) \<noteq> k \<Longrightarrow>
   \<forall>t. key_of (rename t x) = k \<Longrightarrow>
   find_relation k tbl = Some s \<Longrightarrow>
   \<exists>tbl'. reinsert_loop rename env i (pre @ x # post) tbl = Inr tbl'
      \<and> find_relation k tbl' = Some (rename_set s (rename (insertDate (env (i + length pre))) x))"
proof (induction pre arbitrary: i tbl)
  case Nil
  let ?ex = "rename (insertDate (env i)) x"
  let ?tbl = "fst (insert_on_conflict rename_set ?ex tbl)"
  have kx: "key_of ?ex = k" using Nil.prems(3) by simp
  have "find_relation (key_of ?ex) ?tbl = Some (rename_set s ?ex)"
    using Nil.prems(4) kx
    by (intro find_relation_insert_present) (simp_all add: key_of_rename_set find_relation_key)
  then have hit: "find_relation k ?tbl = Some (rename_set s ?ex)" using kx by simp
  have "\<forall>r \<in> set post. \<forall>t. key_of (rename t r) \<noteq> k" using Nil.prems(2) by simp
  from reinsert_loop_misses [OF Nil.prems(1) this, of "Suc i" ?tbl] obtain tbl' where
    "reinsert_loop rename env (Suc i) post ?tbl = Inr tbl'"
    "find_relation k tbl' = find_relation k ?tbl" by blast
  then show ?case
    using Nil.prems(1) hit
    by (cases "insert_on_conflict rename_set ?ex tbl") (simp add: query_def)
next
  case (Cons r pre)
  let ?ex = "rename (insertDate (env i)) r"
  let ?tbl = "fst (insert_on_conflict rename_set ?ex tbl)"
  have "key_of ?ex \<noteq> k" using Cons.prems(2) by simp
  then have "find_relation k ?tbl = find_relation k tbl"
    by (rule find_relation_insert_other) (rule key_of_rename_set)
  then have f: "find_relation k ?tbl = Some s" using Cons.prems(4) by simp
  have "\<forall>r \<in> set pre \<union> set post. \<forall>t. key_of (rename t r) \<noteq> k" using Cons.prems(2) by simp
  from Cons.IH [OF Cons.prems(1) this Cons.prems(3) f, of "Suc i"] obtain tbl' where
    "reinsert_loop rename env (Suc i) (pre @ x # post) ?tbl = Inr tbl'"
    "find_relation k tbl' = Some (rename_set s (rename (insertDate (env (Suc i + length pre))) x))"
    by blast
  then show ?case
    using Cons.prems(1)
    by (cases "insert_on_conflict rename_set ?ex tbl") (simp add: query_def)
qed

lemma split_distinct_keys:
  assumes "distinct (map key_of rows)" and "x \<in> set rows"
  shows "\<exists>pre post. rows = pre @ x # post \<and> (\<forall>r \<in> set pre \<union> set post. key_of r \<noteq> key_of x)"
proof -
  from assms(2) obtain pre post where sp: "rows = pre @ x # post"
    by (auto simp: in_set_conv_decomp)
  with assms(1) have "key_of x \<notin> key_of ` (set pre \<union> set post)"
    by auto
  then have "\<forall>r \<in> set pre \<union> set post. key_of r \<noteq> key_of x"
    by (metis imageI)
  with sp show ?thesis by blast
qed

lemma rename_set_fields:
  "rename_set s (renamed_source new t x)
     = s\<lparr>last_seen := t, strength := max (strength s) (strength x),
         connection_count := connection_count s + 1, metadata := metadata x\<rparr>"
  "rename_set s (renamed_target new t x)
     = s\<lparr>last_seen := t, strength := max (strength s) (strength x),
         connection_count := connection_count s + 1, metadata := metadata x\<rparr>"
  by (simp_all add: rename_set_def renamed_source_def renamed_target_def)

lemma relations_updateFieldValue:
  assumes "\<not> falsy oldValue" "\<not> falsy newValue" "oldValue \<noteq> newValue"
    and "renameConnectError env = None"
    and "rename_transaction env fieldType (text_of oldValue) (text_of newValue) (relations w)
           = Inr (tbl, n)"
  shows "relations (snd (updateFieldValue env fieldType oldValue newValue w)) = tbl"
  using assms by (simp add: updateFieldValue_def Let_def)

lemma rename_transaction_unfold:
  assumes "selectSourceError env = None" "selectTargetError env = None"
    and "deleteSourceError env = None" "deleteTargetError env = None"
    and "reinsert_loop (renamed_source new) (sourceInsert env) 0 (select_source ft old tbl)
           (delete_target ft old (delete_source ft old tbl)) = Inr t3"
    and "reinsert_loop (renamed_target new) (targetInsert env) 0 (select_target ft old tbl) t3 = Inr t4"
  shows "rename_transaction env ft old new tbl
           = Inr (t4, length (select_source ft old tbl) + length (select_target ft old tbl))"
  using assms by (simp add: rename_transaction_def query_def)

lemma survivors:
  assumes "distinct (map key_of tbl)" and "s \<in> set tbl"
    and "\<not> (source_type s = ft \<and> source_value s = old)"
    and "\<not> (target_type s = ft \<and> target_value s = old)"
  shows "find_relation (key_of s) (delete_target ft old (delete_source ft old tbl)) = Some s"
proof -
  have "distinct (map key_of (delete_target ft old (delete_source ft old tbl)))"
    using assms(1) by (simp add: delete_target_def delete_source_def distinct_map_filter)
  moreover have "s \<in> set (delete_target ft old (delete_source ft old tbl))"
    using assms(2-4) by (simp add: delete_target_def delete_source_def)
  ultimately show ?thesis by (rule find_relation_distinct)
qed

lemma source_collision:
  assumes guard: "\<not> falsy oldValue" "\<not> falsy newValue" "oldValue \<noteq> newValue"
    and conn: "renameConnectError env = None"
    and sel: "selectSourceError env = None" "selectTargetError env = None"
    and del: "deleteSourceError env = None" "deleteTargetError env = None"
    and ins: "\<forall>i. insertError (sourceInsert env i) = None" "\<forall>i. insertError (targetInsert env i) = None"
    and keys: "distinct (map key_of (relations w))"
    and x: "x \<in> set (relations w)" "source_type x = fieldType" "source_value x = text_of oldValue"
    and s: "s \<in> set (relations w)"
       "key_of s = (fieldType, text_of newValue, target_type x, target_value x)"
    and other: "\<not> (target_type x = fieldType
                  \<and> (target_value x = text_of oldValue \<or> target_value x = text_of newValue))"
  shows "\<exists>i < length (select_source fieldType (text_of oldValue) (relations w)).
           select_source fieldType (text_of oldValue) (relations w) ! i = x
         \<and> find_relation (key_of s)
             (relations (snd (updateFieldValue env fieldType oldValue newValue w)))
           = Some (s\<lparr>last_seen := insertDate (sourceInsert env i),
                     strength := max (strength s) (strength x),
                     connection_count := connection_count s + 1,
                     metadata := metadata x\<rparr>)"
proof -
  let ?old = "text_of oldValue" and ?new = "text_of newValue"
  let ?T = "relations w"
  let ?k = "key_of s"
  let ?src = "select_source fieldType ?old ?T"
  let ?tgt = "select_target fieldType ?old ?T"
  let ?t2 = "delete_target fieldType ?old (delete_source fieldType ?old ?T)"
  have neq: "?old \<noteq> ?new"
    using guard by (cases oldValue; cases newValue) (auto simp: falsy_def text_of_def)
  have sfields: "source_type s = fieldType" "source_value s = ?new"
    "target_type s = target_type x" "target_value s = target_value x"
    using s(2) by (simp_all add: key_of_def)
  have surv: "find_relation ?k ?t2 = Some s"
    using keys s(1) sfields neq other by (intro survivors) auto
  have xin: "x \<in> set ?src" using x by (simp add: select_source_def)
  have "distinct (map key_of ?src)"
    using keys by (simp add: select_source_def distinct_map_filter)
  from split_distinct_keys [OF this xin] obtain pre post where
    sp: "?src = pre @ x # post"
    and others: "\<forall>r \<in> set pre \<union> set post. key_of r \<noteq> key_of x" by blast
  have allsrc: "\<forall>r \<in> set pre \<union> set post. source_type r = fieldType \<and> source_value r = ?old"
  proof
    fix r assume "r \<in> set pre \<union> set post"
    then have "r \<in> set ?src" unfolding sp by auto
    then show "source_type r = fieldType \<and> source_value r = ?old"
      by (simp add: select_source_def)
  qed
  have miss_src: "\<forall>r \<in> set pre \<union> set post. \<forall>t. key_of (renamed_source ?new t r) \<noteq> ?k"
  proof (intro ballI allI)
    fix r t assume r: "r \<in> set pre \<union> set post"
    with others have "key_of r \<noteq> key_of x" by blast
    moreover from r allsrc have "source_type r = source_type x" "source_value r = source_value x"
      using x(2,3) by auto
    ultimately have "(target_type r, target_value r) \<noteq> (target_type x, target_value x)"
      by (simp add: key_of_def)
    then show "key_of (renamed_source ?new t r) \<noteq> ?k"
      unfolding s(2) key_of_renamed_source by simp
  qed
  have hit_src: "\<forall>t. key_of (renamed_source ?new t x) = ?k"
    using x(2) s(2) by (simp add: key_of_renamed_source)
  from reinsert_loop_hits [OF ins(1) miss_src hit_src surv, of 0] obtain t3 where
    t3: "reinsert_loop (renamed_source ?new) (sourceInsert env) 0 ?src ?t2 = Inr t3"
    and f3: "find_relation ?k t3
              = Some (rename_set s (renamed_source ?new (insertDate (sourceInsert env (length pre))) x))"
    unfolding sp by auto
  have miss_tgt: "\<forall>r \<in> set ?tgt. \<forall>t. key_of (renamed_target ?new t r) \<noteq> ?k"
    using other s(2) by (auto simp: key_of_renamed_target select_target_def)
  from reinsert_loop_misses [OF ins(2) miss_tgt, of 0 t3] obtain t4 where
    t4: "reinsert_loop (renamed_target ?new) (targetInsert env) 0 ?tgt t3 = Inr t4"
    and f4: "find_relation ?k t4 = find_relation ?k t3" by blast
  have "rename_transaction env fieldType ?old ?new ?T = Inr (t4, length ?src + length ?tgt)"
    using sel del t3 t4 by (rule rename_transaction_unfold)
  with guard conn have "relations (snd (updateFieldValue env fieldType oldValue newValue w)) = t4"
    by (rule relations_updateFieldValue)
  then have "find_relation ?k (relations (snd (updateFieldValue env fieldType oldValue newValue w)))
      = Some (s\<lparr>last_seen := insertDate (sourceInsert env (length pre)),
                strength := max (strength s) (strength x),
                connection_count := connection_count s + 1,
                metadata := metadata x\<rparr>)"
    using f4 f3 by (simp add: rename_set_fields)
  moreover have "length pre < length ?src" "?src ! length pre = x"
    unfolding sp by simp_all
  ultimately show ?thesis by blast
qed

lemma target_collision:
  assumes guard: "\<not> falsy oldValue" "\<not> falsy newValue" "oldValue \<noteq> newValue"
    and conn: "renameConnectError env = None"
    and sel: "selectSourceError env = None" "selectTargetError env = None"
    and del: "deleteSourceError env = None" "deleteTargetError env = None"
    and ins: "\<forall>i. insertError (sourceInsert env i) = None" "\<forall>i. insertError (targetInsert env i) = None"
    and keys: "distinct (map key_of (relations w))"
    and y: "y \<in> set (relations w)" "target_type y = fieldType" "target_value y = text_of oldValue"
    and s: "s \<in> set (relations w)"
       "key_of s = (source_type y, source_value y, fieldType, text_of newValue)"
    and other: "\<not> (source_type y = fieldType
                  \<and> (source_value y = text_of oldValue \<or> source_value y = text_of newValue))"
  shows "\<exists>i < length (select_target fieldType (text_of oldValue) (relations w)).
           select_target fieldType (text_of oldValue) (relations w) ! i = y
         \<and> find_relation (key_of s)
             (relations (snd (updateFieldValue env fieldType oldValue newValue w)))
           = Some (s\<lparr>last_seen := insertDate (targetInsert env i),
                     strength := max (strength s) (strength y),
                     connection_count := connection_count s + 1,
                     metadata := metadata y\<rparr>)"
proof -
  let ?old = "text_of oldValue" and ?new = "text_of newValue"
  let ?T = "relations w"
  let ?k = "key_of s"
  let ?src = "select_source fieldType ?old ?T"
  let ?tgt = "select_target fieldType ?old ?T"
  let ?t2 = "delete_target fieldType ?old (delete_source fieldType ?old ?T)"
  have neq: "?old \<noteq> ?new"
    using guard by (cases oldValue; cases newValue) (auto simp: falsy_def text_of_def)
  have sfields: "source_type s = source_type y" "source_value s = source_value y"
    "target_type s = fieldType" "target_value s = ?new"
    using s(2) by (simp_all add: key_of_def)
  have surv: "find_relation ?k ?t2 = Some s"
    using keys s(1) sfields neq other by (intro survivors) auto
  have miss_src: "\<forall>r \<in> set ?src. \<forall>t. key_of (renamed_source ?new t r) \<noteq> ?k"
    using other s(2) by (auto simp: key_of_renamed_source select_source_def)
  from reinsert_loop_misses [OF ins(1) miss_src, of 0 ?t2] obtain t3 where
    t3: "reinsert_loop (renamed_source ?new) (sourceInsert env) 0 ?src ?t2 = Inr t3"
    and f3: "find_relation ?k t3 = find_relation ?k ?t2" by blast
  have yin: "y \<in> set ?tgt" using y by (simp add: select_target_def)
  have "distinct (map key_of ?tgt)"
    using keys by (simp add: select_target_def distinct_map_filter)
  from split_distinct_keys [OF this yin] obtain pre post where
    sp: "?tgt = pre @ y # post"
    and others: "\<forall>r \<in> set pre \<union> set post. key_of r \<noteq> key_of y" by blast
  have alltgt: "\<forall>r \<in> set pre \<union> set post. target_type r = fieldType \<and> target_value r = ?old"
  proof
    fix r assume "r \<in> set pre \<union> set post"
    then have "r \<in> set ?tgt" unfolding sp by auto
    then show "target_type r = fieldType \<and> target_value r = ?old"
      by (simp add: select_target_def)
  qed
  have miss_tgt: "\<forall>r \<in> set pre \<union> set post. \<forall>t. key_of (renamed_target ?new t r) \<noteq> ?k"
  proof (intro ballI allI)
    fix r t assume r: "r \<in> set pre \<union> set post"
    with others have "key_of r \<noteq> key_of y" by blast
    moreover from r alltgt have "target_type r = target_type y" "target_value r = target_value y"
      using y(2,3) by auto
    ultimately have "(source_type r, source_value r) \<noteq> (source_type y, source_value y)"
      by (simp add: key_of_def)
    then show "key_of (renamed_target ?new t r) \<noteq> ?k"
      unfolding s(2) key_of_renamed_target by auto
  qed
  have hit_tgt: "\<forall>t. key_of (renamed_target ?new t y) = ?k"
    using y(2) s(2) by (simp add: key_of_renamed_target)
  have f3': "find_relation ?k t3 = Some s" using f3 surv by simp
  from reinsert_loop_hits [OF ins(2) miss_tgt hit_tgt f3', of 0] obtain t4 where
    t4: "reinsert_loop (renamed_target ?new) (targetInsert env) 0 ?tgt t3 = Inr t4"
    and f4: "find_relation ?k t4
              = Some (rename_set s (renamed_target ?new (insertDate (targetInsert env (length pre))) y))"
    unfolding sp by auto
  have "rename_transaction env fieldType ?old ?new ?T = Inr (t4, length ?src + length ?tgt)"
    using sel del t3 t4 by (rule rename_transaction_unfold)
  with guard conn have "relations (snd (updateFieldValue env fieldType oldValue newValue w)) = t4"
    by (rule relations_updateFieldValue)
  then have "find_relation ?k (relations (snd (updateFieldValue env fieldType oldValue newValue w)))
      = Some (s\<lparr>last_seen := insertDate (targetInsert env (length pre)),
                strength := max (strength s) (strength y),
                connection_count := connection_count s + 1,
                metadata := metadata y\<rparr>)"
    using f4 by (simp add: rename_set_fields)
  moreover have "length pre < length ?tgt" "?tgt ! length pre = y"
    unfolding sp by simp_all
  ultimately show ?thesis by blast
qed

lemma statement_collision:
  assumes "find_relation (key_of ex) tbl = Some surviving"
  shows "find_relation (key_of ex) (fst (insert_on_conflict rename_set ex tbl))
           = Some (rename_set surviving ex)"
  using assms
  by (intro find_relation_insert_present) (simp_all add: key_of_rename_set find_relation_key)

text \<open>
  Claim C4. A re-insert statement of \<^verbatim>\<open>updateFieldValue\<close> (of a source-side or of a
  target-side row) that meets a row with its key leaves that row merged as specified:
  strength the greater of the two, one more connection, \<open>last_seen\<close> the time of the
  statement, metadata of the re-inserted row. And in a whole rename that commits, on a table
  with unique keys, a surviving row that the renamed source-side row \<open>x\<close> (or target-side row
  \<open>y\<close>) collides with ends up merged so, with the time of the statement that re-inserted it.
\<close>

theorem updateFieldValue_collision_merge:
  "(find_relation (key_of (renamed_source new now relation)) tbl = Some surviving \<longrightarrow>
      find_relation (key_of (renamed_source new now relation))
        (fst (insert_on_conflict rename_set (renamed_source new now relation) tbl))
      = Some (spec_merge surviving relation now))
   \<and> (find_relation (key_of (renamed_target new now relation)) tbl = Some surviving \<longrightarrow>
      find_relation (key_of (renamed_target new now relation))
        (fst (insert_on_conflict rename_set (renamed_target new now relation) tbl))
      = Some (spec_merge surviving relation now))
   \<and> (\<not> falsy oldValue \<and> \<not> falsy newValue \<and> oldValue \<noteq> newValue \<and> no_faults env
       \<and> distinct (map key_of (relations w))
       \<and> x \<in> set (relations w) \<and> source_type x = fieldType \<and> source_value x = text_of oldValue
       \<and> s \<in> set (relations w)
       \<and> key_of s = (fieldType, text_of newValue, target_type x, target_value x)
       \<and> \<not> (target_type x = fieldType
              \<and> (target_value x = text_of oldValue \<or> target_value x = text_of newValue)) \<longrightarrow>
       (\<exists>i < length (select_source fieldType (text_of oldValue) (relations w)).
           select_source fieldType (text_of oldValue) (relations w) ! i = x
         \<and> find_relation (key_of s)
             (relations (snd (updateFieldValue env fieldType oldValue newValue w)))
           = Some (spec_merge s x (insertDate (sourceInsert env i)))))
   \<and> (\<not> falsy oldValue \<and> \<not> falsy newValue \<and> oldValue \<noteq> newValue \<and> no_faults env
       \<and> distinct (map key_of (relations w))
       \<and> y \<in> set (relations w) \<and> target_type y = fieldType \<and> target_value y = text_of oldValue
       \<and> s' \<in> set (relations w)
       \<and> key_of s' = (source_type y, source_value y, fieldType, text_of newValue)
       \<and> \<not> (source_type y = fieldType
              \<and> (source_value y = text_of oldValue \<or> source_value y = text_of newValue)) \<longrightarrow>
       (\<exists>i < length (select_target fieldType (text_of oldValue) (relations w)).
           select_target fieldType (text_of oldValue) (relations w) ! i = y
         \<and> find_relation (key_of s')
             (relations (snd (updateFieldValue env fieldType oldValue newValue w)))
           = Some (spec_merge s' y (insertDate (targetInsert env i)))))"
    (is "?source_statement \<and> ?target_statement \<and> ?source_rows \<and> ?target_rows")
proof (intro conjI)
  show ?source_statement
    using statement_collision [of "renamed_source new now relation" tbl surviving]
    by (simp add: rename_set_fields spec_merge_def)
  show ?target_statement
    using statement_collision [of "renamed_target new now relation" tbl surviving]
    by (simp add: rename_set_fields spec_merge_def)
  show ?source_rows
    unfolding spec_merge_def no_faults_def
    by (intro impI source_collision) simp_all
  show ?target_rows
    unfolding spec_merge_def no_faults_def
    by (intro impI target_collision) simp_all
qed

theorem updateFieldValue_collision_merge_witness:
  "find_relation (''username'', ''bob'', ''command'', ''ls'')
     (relations (snd (updateFieldValue sample_rename_env ''username'' (Some ''alice'') (Some ''bob'')
                        sample_rename_world)))
     = Some ((sample_edge ''username'' ''bob'' ''command'' ''ls'' 1000 5)\<lparr>connection_count := 4\<rparr>)
   \<and> find_relation (''ip'', ''1.2.3.4'', ''username'', ''bob'')
     (relations (snd (updateFieldValue sample_rename_env ''username'' (Some ''alice'') (Some ''bob'')
                        sample_rename_world)))
     = Some ((sample_edge ''ip'' ''1.2.3.4'' ''username'' ''bob'' 2000 9)\<lparr>connection_count := 10\<rparr>)"
proof -
  let ?x = "sample_edge ''username'' ''alice'' ''command'' ''ls'' 5 5"
  let ?s = "sample_edge ''username'' ''bob'' ''command'' ''ls'' 7 3"
  let ?y = "sample_edge ''ip'' ''1.2.3.4'' ''username'' ''alice'' 2 4"
  let ?s' = "sample_edge ''ip'' ''1.2.3.4'' ''username'' ''bob'' 3 9"
  let ?w' = "snd (updateFieldValue sample_rename_env ''username'' (Some ''alice'') (Some ''bob'')
                        sample_rename_world)"
  note inst = updateFieldValue_collision_merge
    [where oldValue = "Some ''alice''" and newValue = "Some ''bob''" and env = sample_rename_env
       and w = sample_rename_world and fieldType = "''username''"
       and x = ?x and s = ?s and y = ?y and s' = ?s']
  have guard: "\<not> falsy (Some ''alice'') \<and> \<not> falsy (Some ''bob'') \<and> Some ''alice'' \<noteq> Some ''bob''
      \<and> no_faults sample_rename_env \<and> distinct (map key_of (relations sample_rename_world))"
    by (simp add: falsy_def no_faults_def sample_rename_env_def sample_rename_world_def
          key_of_def sample_edge_def)
  have rows: "?x \<in> set (relations sample_rename_world)" "?s \<in> set (relations sample_rename_world)"
    "?y \<in> set (relations sample_rename_world)" "?s' \<in> set (relations sample_rename_world)"
    by (simp_all add: sample_rename_world_def)
  have side: "source_type ?x = ''username'' \<and> source_value ?x = text_of (Some ''alice'')
      \<and> key_of ?s = (''username'', text_of (Some ''bob''), target_type ?x, target_value ?x)
      \<and> \<not> (target_type ?x = ''username''
              \<and> (target_value ?x = text_of (Some ''alice'') \<or> target_value ?x = text_of (Some ''bob'')))"
    "target_type ?y = ''username'' \<and> target_value ?y = text_of (Some ''alice'')
      \<and> key_of ?s' = (source_type ?y, source_value ?y, ''username'', text_of (Some ''bob''))
      \<and> \<not> (source_type ?y = ''username''
              \<and> (source_value ?y = text_of (Some ''alice'') \<or> source_value ?y = text_of (Some ''bob'')))"
    by (simp_all add: sample_edge_def text_of_def key_of_def)
  have sel: "select_source ''username'' (text_of (Some ''alice'')) (relations sample_rename_world) = [?x]"
    "select_target ''username'' (text_of (Some ''alice'')) (relations sample_rename_world) = [?y]"
    by (simp_all add: select_source_def select_target_def sample_rename_world_def sample_edge_def
          text_of_def)
  from inst guard rows side have
    "\<exists>i < length (select_source ''username'' (text_of (Some ''alice'')) (relations sample_rename_world)).
        find_relation (key_of ?s) (relations ?w')
          = Some (spec_merge ?s ?x (insertDate (sourceInsert sample_rename_env i)))"
    by blast
  then have src: "find_relation (key_of ?s) (relations ?w')
          = Some (spec_merge ?s ?x (insertDate (sourceInsert sample_rename_env 0)))"
    unfolding sel by simp
  from inst guard rows side have
    "\<exists>i < length (select_target ''username'' (text_of (Some ''alice'')) (relations sample_rename_world)).
        find_relation (key_of ?s') (relations ?w')
          = Some (spec_merge ?s' ?y (insertDate (targetInsert sample_rename_env i)))"
    by blast
  then have tgt: "find_relation (key_of ?s') (relations ?w')
          = Some (spec_merge ?s' ?y (insertDate (targetInsert sample_rename_env 0)))"
    unfolding sel by simp
  have "key_of ?s = (''username'', ''bob'', ''command'', ''ls'')"
    "key_of ?s' = (''ip'', ''1.2.3.4'', ''username'', ''bob'')"
    "spec_merge ?s ?x (insertDate (sourceInsert sample_rename_env 0))
       = (sample_edge ''username'' ''bob'' ''command'' ''ls'' 1000 5)\<lparr>connection_count := 4\<rparr>"
    "spec_merge ?s' ?y (insertDate (targetInsert sample_rename_env 0))
       = (sample_edge ''ip'' ''1.2.3.4'' ''username'' ''bob'' 2000 9)\<lparr>connection_count := 10\<rparr>"
    by (simp_all add: key_of_def sample_edge_def spec_merge_def sample_rename_env_def)
  with src tgt show ?thesis by simp
qed

end
